theory Spec2Isabelle
  imports Main
begin

section \<open>Text and bytes\<close>

text \<open>
  The gateway of \<^verbatim>\<open>main.py\<close> moves text between an HTTP caller and the standard
  streams of one child process. A Python \<^verbatim>\<open>str\<close> is a sequence of code points and a
  \<^verbatim>\<open>bytes\<close> object a sequence of octets; both are lists of naturals here, and
  \<open>ascii\<close> reads an ASCII literal as either.
\<close>

type_synonym str = "nat list"
type_synonym bytes = "nat list"

definition ascii :: "string \<Rightarrow> nat list" where
  "ascii s = map of_char s"

definition newline :: nat where
  "newline = 10"

text \<open>
  The exceptions that can travel through \<^verbatim>\<open>send\<close>. \<open>HTTPException\<close> carries the
  status code and the detail text.
\<close>

datatype exn =
    TimeoutError
  | BrokenPipeError
  | ConnectionResetError
  | UnboundLocalError
  | UnicodeEncodeError
  | AssertionError
  | AttributeError
  | ValueError
  | OSError
  | HTTPException nat str

subsection \<open>\<^verbatim>\<open>str.encode("utf-8")\<close>\<close>

text \<open>
  One code point becomes one to four octets; a surrogate (or a value beyond the
  Unicode range, which no \<^verbatim>\<open>str\<close> holds) has no encoding and makes the whole call
  raise \<^verbatim>\<open>UnicodeEncodeError\<close>.
\<close>

definition encodable :: "nat \<Rightarrow> bool" where
  "encodable c \<longleftrightarrow> c < 0xD800 \<or> (0xDFFF < c \<and> c \<le> 0x10FFFF)"

definition encode_cp :: "nat \<Rightarrow> bytes" where
  "encode_cp c =
     (if c < 0x80 then [c]
      else if c < 0x800 then [0xC0 + c div 64, 0x80 + c mod 64]
      else if c < 0x10000 then
        [0xE0 + c div 4096, 0x80 + (c div 64) mod 64, 0x80 + c mod 64]
      else
        [0xF0 + c div 262144, 0x80 + (c div 4096) mod 64,
         0x80 + (c div 64) mod 64, 0x80 + c mod 64])"

definition utf8_encode :: "str \<Rightarrow> exn + bytes" where
  "utf8_encode s =
     (if list_all encodable s then Inr (concat (map encode_cp s))
      else Inl UnicodeEncodeError)"

subsection \<open>\<^verbatim>\<open>bytes.decode("utf-8", errors="replace")\<close>\<close>

text \<open>
  The decoder never raises: every ill-formed span becomes one U+FFFD. \<open>decode_one\<close>
  takes the lead octet and what follows it and gives the code point together with the
  number of following octets it used up. A bad lead octet is replaced alone; a sequence
  broken by a bad continuation octet or by the end of the input is replaced up to the
  last octet that was still acceptable.
\<close>

definition replacement :: nat where
  "replacement = 0xFFFD"

definition cont :: "nat \<Rightarrow> bool" where
  "cont b \<longleftrightarrow> 0x80 \<le> b \<and> b \<le> 0xBF"

definition decode_one :: "nat \<Rightarrow> bytes \<Rightarrow> nat \<times> nat" where
  "decode_one ch rest =
     (if ch < 0x80 then (ch, 0)
      else if ch < 0xC2 then (replacement, 0)
      else if ch < 0xE0 then
        (case rest of
           [] \<Rightarrow> (replacement, 0)
         | ch2 # _ \<Rightarrow>
             if \<not> cont ch2 then (replacement, 0)
             else ((ch - 0xC0) * 64 + (ch2 - 0x80), 1))
      else if ch < 0xF0 then
        (case rest of
           [] \<Rightarrow> (replacement, 0)
         | ch2 # r2 \<Rightarrow>
             if \<not> cont ch2 then (replacement, 0)
             else if (if ch2 < 0xA0 then ch = 0xE0 else ch = 0xED) then (replacement, 0)
             else
               (case r2 of
                  [] \<Rightarrow> (replacement, 1)
                | ch3 # _ \<Rightarrow>
                    if \<not> cont ch3 then (replacement, 1)
                    else (((ch - 0xE0) * 64 + (ch2 - 0x80)) * 64 + (ch3 - 0x80), 2)))
      else if ch < 0xF5 then
        (case rest of
           [] \<Rightarrow> (replacement, 0)
         | ch2 # r2 \<Rightarrow>
             if \<not> cont ch2 then (replacement, 0)
             else if (if ch2 < 0x90 then ch = 0xF0 else ch = 0xF4) then (replacement, 0)
             else
               (case r2 of
                  [] \<Rightarrow> (replacement, 1)
                | ch3 # r3 \<Rightarrow>
                    if \<not> cont ch3 then (replacement, 1)
                    else
                      (case r3 of
                         [] \<Rightarrow> (replacement, 2)
                       | ch4 # _ \<Rightarrow>
                           if \<not> cont ch4 then (replacement, 2)
                           else
                             ((((ch - 0xF0) * 64 + (ch2 - 0x80)) * 64 + (ch3 - 0x80)) * 64
                                + (ch4 - 0x80), 3))))
      else (replacement, 0))"

fun utf8_decode :: "bytes \<Rightarrow> str" where
  "utf8_decode [] = []"
| "utf8_decode (ch # rest) =
     (case decode_one ch rest of (c, k) \<Rightarrow> c # utf8_decode (drop k rest))"

subsection \<open>\<^verbatim>\<open>str.rstrip("\n")\<close> and \<^verbatim>\<open>str(int)\<close>\<close>

definition rstrip_newline :: "str \<Rightarrow> str" where
  "rstrip_newline s = rev (dropWhile (\<lambda>c. c = newline) (rev s))"

fun show_nat :: "nat \<Rightarrow> str" where
  "show_nat n = (if n < 10 then [48 + n] else show_nat (n div 10) @ [48 + n mod 10])"

definition show_int :: "int \<Rightarrow> str" where
  "show_int i = (if i < 0 then 45 # show_nat (nat (- i)) else show_nat (nat i))"

section \<open>The worker process and the process-wide state\<close>

text \<open>
  What the child does is outside the program, so it is data of the model. One
  \<^verbatim>\<open>asyncio.wait_for(proc.stdout.readline(), timeout=5.0)\<close> observes one
  \<open>read_event\<close>: a complete line (given without its newline), the end of the stream
  (with the unterminated rest of the output, possibly empty), nothing within the
  timeout, or a read error of the pipe. A process with no event pending and its stream
  still open is alive and silent.
\<close>

datatype read_event =
    Line bytes
  | Closed bytes
  | Silent
  | Failed

text \<open>
  The child's side of its input pipe. A child may stop taking input: \<open>Fault k waiting f\<close>
  says that it takes \<open>k\<close> more bytes, that the bytes \<open>waiting\<close> have been written but
  not taken, and what \<^verbatim>\<open>drain()\<close> does while bytes are waiting: return at once
  (they fit the write buffer), raise (the pipe broke), or wait for ever.
\<close>

datatype drain_fate =
    Returns
  | Raises exn
  | Waits

datatype stdin_fault = Fault nat bytes drain_fate

record process =
  pid :: nat
  returncode :: "int option"
  stdin_error :: "stdin_fault option"
  stdin_data :: bytes
  respond :: "bytes \<Rightarrow> read_event list"
  stdout_events :: "read_event list"
  stdout_eof :: bool
  sigterm_exit :: "int option"

text \<open>
  \<open>returncode\<close> is \<^verbatim>\<open>proc.returncode\<close>: \<open>None\<close> until an exit status has been
  recorded. \<open>stdin_error\<close> is \<open>None\<close> while the child takes whatever it is sent, and
  the fault of its input pipe otherwise; \<open>stdin_data\<close> is everything that has reached
  the child's input; \<open>respond\<close> is the output the child produces for a chunk of input;
  \<open>sigterm_exit\<close> is the status with which the child exits within the grace period
  after a termination request, \<open>None\<close> if it is still running when the period is over.
\<close>

datatype effect =
    Printed str
  | PrintedBytes bytes
  | Spawned nat
  | DrainStarted nat
  | SigTerm nat
  | SigKill nat
  | Waited nat "nat option"
  | Wrote nat bytes

text \<open>
  The module's globals: \<^verbatim>\<open>proc\<close>, \<^verbatim>\<open>io_lock\<close> (\<open>True\<close> when held) and
  \<^verbatim>\<open>app.state.stderr_task\<close> (the pid whose stderr is drained). \<open>spawner\<close> is
  the operating system's answer to the n-th call of
  \<^verbatim>\<open>asyncio.create_subprocess_exec\<close>, \<open>launches\<close> counts these calls, and
  \<open>effects\<close> logs, in order, what the program did to the outside.
\<close>

record world =
  proc :: "process option"
  io_lock :: bool
  stderr_task :: "nat option"
  spawner :: "nat \<Rightarrow> exn + process"
  launches :: nat
  effects :: "effect list"

definition emit :: "effect list \<Rightarrow> world \<Rightarrow> world" where
  "emit es w = w\<lparr>effects := effects w @ es\<rparr>"

text \<open>
  \<^verbatim>\<open>proc is not None and proc.returncode is None\<close>
\<close>

definition live :: "world \<Rightarrow> bool" where
  "live w = (case proc w of None \<Rightarrow> False | Some p \<Rightarrow> returncode p = None)"

section \<open>\<^verbatim>\<open>start_kotlin\<close>\<close>

definition start_kotlin :: "world \<Rightarrow> (exn + unit) \<times> world" where
  "start_kotlin w =
     (if live w then (Inr (), emit [Printed (ascii ''NO'')] w)
      else
        (case spawner w (launches w) of
           Inl e \<Rightarrow> (Inl e, w\<lparr>launches := Suc (launches w)\<rparr>)
         | Inr p \<Rightarrow>
             (Inr (),
              emit [Spawned (pid p), DrainStarted (pid p)]
                (w\<lparr>proc := Some p, launches := Suc (launches w),
                   stderr_task := Some (pid p)\<rparr>))))"

section \<open>\<^verbatim>\<open>stop_kotlin\<close>\<close>

definition grace_period :: nat where
  "grace_period = 2"

definition stop_kotlin :: "world \<Rightarrow> world" where
  "stop_kotlin w =
     (case proc w of
        None \<Rightarrow> w
      | Some p \<Rightarrow>
          (if returncode p = None then
             (let w1 = emit [SigTerm (pid p), Waited (pid p) (Some grace_period)] w
              in case sigterm_exit p of
                   Some rc \<Rightarrow> w1
                 | None \<Rightarrow> emit [SigKill (pid p), Waited (pid p) None] w1)
           else w)\<lparr>proc := None\<rparr>)"

section \<open>\<^verbatim>\<open>send\<close>\<close>

datatype response = Out str

text \<open>
  A chunk reaches the child's input, and the child answers it.
\<close>

definition deliver :: "bytes \<Rightarrow> process \<Rightarrow> process" where
  "deliver chunk p =
     (if chunk = [] then p
      else p\<lparr>stdin_data := stdin_data p @ chunk,
             stdout_events := stdout_events p @ respond p chunk\<rparr>)"

text \<open>
  What a write does to the child: all of it is delivered while the pipe is sound;
  otherwise the bytes queue up behind those already waiting and the child takes what it
  still takes from the front of the queue.
\<close>

definition stdin_accept :: "bytes \<Rightarrow> process \<Rightarrow> process" where
  "stdin_accept payload p =
     (case stdin_error p of
        None \<Rightarrow> deliver payload p
      | Some (Fault k waiting f) \<Rightarrow>
          (deliver (take k (waiting @ payload)) p)
            \<lparr>stdin_error :=
               Some (Fault (k - length (waiting @ payload)) (drop k (waiting @ payload)) f)\<rparr>)"

text \<open>
  \<^verbatim>\<open>proc.stdin.write(payload)\<close>: hands the bytes to the pipe and never raises, also
  when the pipe is broken.
\<close>

definition stdin_write :: "bytes \<Rightarrow> world \<Rightarrow> (exn + unit) \<times> world" where
  "stdin_write payload w =
     (case proc w of
        None \<Rightarrow> (Inl AttributeError, w)
      | Some p \<Rightarrow>
          (Inr (), emit [Wrote (pid p) payload] (w\<lparr>proc := Some (stdin_accept payload p)\<rparr>)))"

text \<open>
  \<^verbatim>\<open>await proc.stdin.drain()\<close>: returns when nothing is waiting; with bytes waiting
  it returns, raises or never comes back, as the fault says. Once it has raised, the
  connection is lost, the child takes nothing more, and a later drain raises
  \<^verbatim>\<open>ConnectionResetError\<close>.
\<close>

definition stdin_drain :: "world \<Rightarrow> ((exn + unit) \<times> world) option" where
  "stdin_drain w =
     (case proc w of
        None \<Rightarrow> Some (Inl AttributeError, w)
      | Some p \<Rightarrow>
          (case stdin_error p of
             None \<Rightarrow> Some (Inr (), w)
           | Some (Fault k waiting f) \<Rightarrow>
               (if waiting = [] then Some (Inr (), w)
                else
                  (case f of
                     Returns \<Rightarrow> Some (Inr (), w)
                   | Raises e \<Rightarrow>
                       Some (Inl e,
                         w\<lparr>proc := Some (p\<lparr>stdin_error :=
                              Some (Fault 0 waiting (Raises ConnectionResetError))\<rparr>)\<rparr>)
                   | Waits \<Rightarrow> None))))"

text \<open>
  The limit of the stream reader, 64 KiB: \<^verbatim>\<open>readline\<close> raises \<^verbatim>\<open>ValueError\<close>
  for a line, or an unterminated rest, with more bytes than that before the newline, and
  throws the bytes away.
\<close>

definition stream_limit :: nat where
  "stream_limit = 65536"

text \<open>
  \<^verbatim>\<open>await asyncio.wait_for(proc.stdout.readline(), timeout=5.0)\<close>. A stream at
  end-of-file answers \<^verbatim>\<open>b""\<close> at once, every time it is asked; a stream with a
  read error raises it every time it is asked.
\<close>

definition readline_wait :: "world \<Rightarrow> (exn + bytes) \<times> world" where
  "readline_wait w =
     (case proc w of
        None \<Rightarrow> (Inl AttributeError, w)
      | Some p \<Rightarrow>
          (if stdout_eof p then (Inr [], w)
           else
             (case stdout_events p of
                [] \<Rightarrow> (Inl TimeoutError, w)
              | Silent # es \<Rightarrow> (Inl TimeoutError, w\<lparr>proc := Some (p\<lparr>stdout_events := es\<rparr>)\<rparr>)
              | Failed # es \<Rightarrow> (Inl OSError, w)
              | Line l # es \<Rightarrow>
                  (if stream_limit < length l then
                     (Inl ValueError, w\<lparr>proc := Some (p\<lparr>stdout_events := es\<rparr>)\<rparr>)
                   else
                     (Inr (l @ [newline]), w\<lparr>proc := Some (p\<lparr>stdout_events := es\<rparr>)\<rparr>))
              | Closed r # es \<Rightarrow>
                  (if stream_limit < length r then
                     (Inl ValueError,
                      w\<lparr>proc := Some (p\<lparr>stdout_events := [], stdout_eof := True\<rparr>)\<rparr>)
                   else
                     (Inr r,
                      w\<lparr>proc := Some (p\<lparr>stdout_events := [], stdout_eof := True\<rparr>)\<rparr>)))))"

text \<open>
  A \<^verbatim>\<open>while\<close> loop whose body may raise. The result is \<open>None\<close> when the loop never
  ends, the exception with the state it was raised in, or \<open>Inr ()\<close> with the state in
  which the condition was found false.
\<close>

partial_function (option) while_loop ::
  "('s \<Rightarrow> bool) \<Rightarrow> ('s \<Rightarrow> (exn + unit) \<times> 's) \<Rightarrow> 's \<Rightarrow> ((exn + unit) \<times> 's) option"
where
  "while_loop c b s =
     (if c s then
        (case b s of
           (Inl e, s') \<Rightarrow> Some (Inl e, s')
         | (Inr u, s') \<Rightarrow> while_loop c b s')
      else Some (Inr (), s))"

text \<open>
  The body of the loop at lines 100 to 102, on the local \<^verbatim>\<open>line\<close> and the world:
  \<^verbatim>\<open>print(line); line += await asyncio.wait_for(proc.stdout.readline(), timeout=5.0)\<close>
\<close>

definition loop_body :: "bytes \<times> world \<Rightarrow> (exn + unit) \<times> (bytes \<times> world)" where
  "loop_body = (\<lambda>(line, w).
     (case readline_wait (emit [PrintedBytes line] w) of
        (Inl e, w') \<Rightarrow> (Inl e, (line, w'))
      | (Inr l, w') \<Rightarrow> (Inr (), (line @ l, w'))))"

definition detail_exited :: "int \<Rightarrow> str" where
  "detail_exited rc = ascii ''Kotlin process exited with code '' @ show_int rc"

definition detail_no_output :: str where
  "detail_no_output = ascii ''Kotlin process produced no output (EOF).''"

definition detail_stdin_closed :: str where
  "detail_stdin_closed = ascii ''Kotlin process stdin closed (BrokenPipe).''"

definition render :: "bytes \<Rightarrow> response" where
  "render line = Out (rstrip_newline (utf8_decode line))"

text \<open>
  Lines 94 to 96: the query and a newline, encoded, written to the child and flushed.
  The result is \<open>None\<close> when the flush never comes back.
\<close>

definition send_request :: "str \<Rightarrow> world \<Rightarrow> ((exn + unit) \<times> world) option" where
  "send_request q w =
     (case utf8_encode (q @ [newline]) of
        Inl e \<Rightarrow> Some (Inl e, w)
      | Inr payload \<Rightarrow>
          (case stdin_write payload w of
             (Inl e, w1) \<Rightarrow> Some (Inl e, w1)
           | (Inr u, w1) \<Rightarrow> stdin_drain w1))"

text \<open>
  Lines 99 to 106: the first read, the loop, and the two statements that follow the loop.
  Besides the outcome, the result holds the local \<^verbatim>\<open>line\<close> as a handler will
  find it: \<open>None\<close> while it is unbound.
\<close>

definition read_reply :: "world \<Rightarrow> ((exn + response) \<times> bytes option \<times> world) option" where
  "read_reply w =
     (case readline_wait w of
        (Inl e, w1) \<Rightarrow> Some (Inl e, None, w1)
      | (Inr l, w1) \<Rightarrow>
          (case while_loop (\<lambda>s. True) loop_body (l, w1) of
             None \<Rightarrow> None
           | Some (Inl e, (line, w2)) \<Rightarrow> Some (Inl e, Some line, w2)
           | Some (Inr u, (line, w2)) \<Rightarrow>
               (if line = [] then
                  Some (Inl (HTTPException 500 detail_no_output), Some line, w2)
                else Some (Inr (render line), Some line, w2))))"

text \<open>
  The statements inside \<^verbatim>\<open>try\<close> (lines 93 to 106).
\<close>

definition send_try :: "str \<Rightarrow> world \<Rightarrow> ((exn + response) \<times> bytes option \<times> world) option" where
  "send_try q w =
     (case send_request q w of
        None \<Rightarrow> None
      | Some (Inl e, w1) \<Rightarrow> Some (Inl e, None, w1)
      | Some (Inr u, w1) \<Rightarrow> read_reply w1)"

text \<open>
  The \<^verbatim>\<open>try\<close> statement with its two handlers (lines 92 to 111). An exception
  raised by a handler, and any exception no handler names, leaves the statement.
\<close>

definition send_guarded :: "str \<Rightarrow> world \<Rightarrow> ((exn + response) \<times> world) option" where
  "send_guarded q w =
     (case send_try q w of
        None \<Rightarrow> None
      | Some (Inr r, line, w') \<Rightarrow> Some (Inr r, w')
      | Some (Inl e, line, w') \<Rightarrow>
          (if e = TimeoutError then
             (case line of
                None \<Rightarrow> Some (Inl UnboundLocalError, w')
              | Some l \<Rightarrow> Some (Inr (render l), w'))
           else if e = BrokenPipeError then
             Some (Inl (HTTPException 500 detail_stdin_closed), w')
           else Some (Inl e, w')))"

text \<open>
  \<^verbatim>\<open>async with io_lock\<close>: the token is taken on entry and given back however the
  block is left. Nothing else runs in this model, so a caller that finds the token taken
  waits for ever.
\<close>

definition with_io_lock ::
  "(world \<Rightarrow> ('a \<times> world) option) \<Rightarrow> world \<Rightarrow> ('a \<times> world) option" where
  "with_io_lock body w =
     (if io_lock w then None
      else
        (case body (w\<lparr>io_lock := True\<rparr>) of
           None \<Rightarrow> None
         | Some (r, w') \<Rightarrow> Some (r, w'\<lparr>io_lock := False\<rparr>)))"

definition send :: "str \<Rightarrow> world \<Rightarrow> ((exn + response) \<times> world) option" where
  "send q w =
     (case start_kotlin w of
        (Inl e, w1) \<Rightarrow> Some (Inl e, w1)
      | (Inr u, w1) \<Rightarrow>
          (case proc w1 of
             None \<Rightarrow> Some (Inl AssertionError, w1)
           | Some p \<Rightarrow>
               (case returncode p of
                  Some rc \<Rightarrow> Some (Inl (HTTPException 500 (detail_exited rc)), w1)
                | None \<Rightarrow> with_io_lock (send_guarded q) w1)))"

section \<open>Situations\<close>

text \<open>
  The stream of the current process has reached end-of-file.
\<close>

definition at_eof :: "world \<Rightarrow> bool" where
  "at_eof w = (case proc w of None \<Rightarrow> False | Some p \<Rightarrow> stdout_eof p)"

text \<open>
  The next read finds nothing within the timeout: no event is pending, or the next one
  is a silence.
\<close>

fun quiet :: "read_event list \<Rightarrow> bool" where
  "quiet [] = True"
| "quiet (Silent # es) = True"
| "quiet (Line l # es) = False"
| "quiet (Closed r # es) = False"
| "quiet (Failed # es) = False"

text \<open>
  Every line is within the limit of the stream reader.
\<close>

definition readable :: "bytes list \<Rightarrow> bool" where
  "readable ls = list_all (\<lambda>l. length l \<le> stream_limit) ls"

text \<open>
  What \<^verbatim>\<open>readline\<close> hands back for a run of complete lines, one after the other.
\<close>

definition joined :: "bytes list \<Rightarrow> bytes" where
  "joined ls = concat (map (\<lambda>l. l @ [newline]) ls)"

text \<open>
  The newline-terminated lines of a chunk of input, as a child that reads its input line
  by line receives them; an unterminated rest is not a line yet.
\<close>

fun lines_from :: "bytes \<Rightarrow> bytes \<Rightarrow> bytes list" where
  "lines_from acc [] = []"
| "lines_from acc (b # bs) =
     (if b = newline then rev acc # lines_from [] bs else lines_from (b # acc) bs)"

definition protocol_lines :: "bytes \<Rightarrow> bytes list" where
  "protocol_lines payload = lines_from [] payload"

text \<open>
  The worker of the echo scenario answers every input line with \<^verbatim>\<open>"ECHO:"\<close>, the
  line and a newline.
\<close>

definition echo :: "bytes \<Rightarrow> read_event list" where
  "echo payload = map (\<lambda>l. Line (ascii ''ECHO:'' @ l)) (protocol_lines payload)"

definition echo_worker :: "nat \<Rightarrow> process" where
  "echo_worker n =
     \<lparr>pid = n, returncode = None, stdin_error = None, stdin_data = [], respond = echo,
      stdout_events = [], stdout_eof = False, sigterm_exit = Some (- 15)\<rparr>"

text \<open>
  The program right after import: no process, the token free, and an operating system
  that launches an echo worker each time it is asked.
\<close>

definition fresh :: world where
  "fresh =
     \<lparr>proc = None, io_lock = False, stderr_task = None,
      spawner = (\<lambda>n. Inr (echo_worker (Suc n))), launches = 0, effects = []\<rparr>"

definition running :: "process \<Rightarrow> world" where
  "running p = fresh\<lparr>proc := Some p, launches := 1, stderr_task := Some (pid p)\<rparr>"

text \<open>
  Other children: one that ignores a termination request, one whose exit status has
  been recorded, one that never writes, one that closes its output without writing, and
  one that answers and then exits.
\<close>

definition stubborn :: "nat \<Rightarrow> process" where
  "stubborn n = (echo_worker n)\<lparr>sigterm_exit := None\<rparr>"

definition exited :: "nat \<Rightarrow> int \<Rightarrow> process" where
  "exited n rc = (echo_worker n)\<lparr>returncode := Some rc, stdout_eof := True\<rparr>"

definition mute :: "nat \<Rightarrow> process" where
  "mute n = (echo_worker n)\<lparr>respond := (\<lambda>payload. [])\<rparr>"

definition closing :: "nat \<Rightarrow> process" where
  "closing n = (echo_worker n)\<lparr>respond := (\<lambda>payload. [Closed []])\<rparr>"

definition one_shot :: "nat \<Rightarrow> process" where
  "one_shot n = (echo_worker n)\<lparr>respond := (\<lambda>payload. echo payload @ [Closed []])\<rparr>"

text \<open>
  A child that answers a short line and then one of 65537 bytes, and a child that takes
  one more byte before its input pipe breaks.
\<close>

definition rambling :: "nat \<Rightarrow> process" where
  "rambling n =
     (echo_worker n)\<lparr>respond := (\<lambda>payload. [Line (ascii ''ok''), Line (replicate 65537 120)])\<rparr>"

definition choking :: "nat \<Rightarrow> process" where
  "choking n = (echo_worker n)\<lparr>stdin_error := Some (Fault 1 [] (Raises BrokenPipeError))\<rparr>"

text \<open>
  The chunks written to a child's input, in order, among the logged effects.
\<close>

fun writes :: "effect list \<Rightarrow> bytes list" where
  "writes [] = []"
| "writes (Wrote n bs # es) = bs # writes es"
| "writes (e # es) = writes es"

section \<open>The loop\<close>

lemma while_loop_rule:
  assumes run: "while_loop c b s = Some y"
    and stop: "\<And>s. \<not> c s \<Longrightarrow> P s (Inr (), s)"
    and raise: "\<And>s e s'. c s \<Longrightarrow> b s = (Inl e, s') \<Longrightarrow> P s (Inl e, s')"
    and step: "\<And>s u s' y. c s \<Longrightarrow> b s = (Inr u, s') \<Longrightarrow> P s' y \<Longrightarrow> P s y"
  shows "P s y"
proof -
  have "c' = c \<longrightarrow> b' = b \<longrightarrow> P s y" if "while_loop c' b' s = Some y" for c' b'
  proof (rule while_loop.raw_induct[where P = "\<lambda>c' b' s y. c' = c \<longrightarrow> b' = b \<longrightarrow> P s y", OF _ that])
    fix f c' b' s y
    assume ih: "\<And>c' b' s y. f c' b' s = Some y \<Longrightarrow> c' = c \<longrightarrow> b' = b \<longrightarrow> P s y"
      and eq: "(if c' s then case b' s of (Inl e, s') \<Rightarrow> Some (Inl e, s') | (Inr u, s') \<Rightarrow> f c' b' s'
                else Some (Inr (), s)) = Some y"
    show "c' = c \<longrightarrow> b' = b \<longrightarrow> P s y"
    proof (intro impI)
      assume c: "c' = c" and b: "b' = b"
      show "P s y"
      proof (cases "c s")
        case False
        with eq c have "y = (Inr (), s)" by simp
        with stop[OF False] show ?thesis by simp
      next
        case True
        obtain r s' where bs: "b s = (r, s')" by (cases "b s")
        show ?thesis
        proof (cases r)
          case (Inl e)
          with eq c b True bs have "y = (Inl e, s')" by simp
          with raise[OF True] bs Inl show ?thesis by simp
        next
          case (Inr u)
          with eq c b True bs have "f c b s' = Some y" by simp
          from ih[OF this] have "P s' y" by simp
          from step[OF True _ this] bs Inr show ?thesis by simp
        qed
      qed
    qed
  qed
  from this[OF run] show ?thesis by simp
qed

lemma while_true_no_exit:
  fixes b :: "'s \<Rightarrow> (exn + unit) \<times> 's"
  shows "while_loop (\<lambda>s. True) b s \<noteq> Some (Inr u, s')"
proof
  assume run: "while_loop (\<lambda>s. True) b s = Some (Inr u, s')"
  have "isl (fst (Inr u :: exn + unit, s'))"
    using run
    by (rule while_loop_rule[where P = "\<lambda>(s::'s) (y::(exn + unit) \<times> 's). isl (fst y)"])
      simp_all
  then show False by simp
qed

lemma loop_body_at_eof:
  "at_eof w \<Longrightarrow> \<exists>w'. loop_body (line, w) = (Inr (), (line, w')) \<and> at_eof w'"
  by (auto simp: loop_body_def readline_wait_def at_eof_def emit_def split: option.splits)

lemma while_loop_at_eof: "at_eof w \<Longrightarrow> while_loop (\<lambda>s. True) loop_body (line, w) = None"
proof (rule ccontr)
  assume eof: "at_eof w" and "while_loop (\<lambda>s. True) loop_body (line, w) \<noteq> None"
  then obtain y where run: "while_loop (\<lambda>s. True) loop_body (line, w) = Some y" by auto
  have "\<not> at_eof (snd (line, w))"
    using run
  proof (rule while_loop_rule[where P = "\<lambda>s y. \<not> at_eof (snd s)"])
    fix s :: "bytes \<times> world" and e s'
    assume "loop_body s = (Inl e, s')"
    then show "\<not> at_eof (snd s)"
      using loop_body_at_eof[of "snd s" "fst s"] by auto
  next
    fix s :: "bytes \<times> world" and u s' and y :: "(exn + unit) \<times> bytes \<times> world"
    assume "loop_body s = (Inr u, s')" "\<not> at_eof (snd s')"
    then show "\<not> at_eof (snd s)"
      using loop_body_at_eof[of "snd s" "fst s"] by auto
  qed simp
  with eof show False by simp
qed

section \<open>Reading from the child\<close>

lemma readline_wait_line:
  "proc w = Some p \<Longrightarrow> \<not> stdout_eof p \<Longrightarrow> stdout_events p = Line l # es \<Longrightarrow>
   length l \<le> stream_limit \<Longrightarrow>
   readline_wait w = (Inr (l @ [newline]), w\<lparr>proc := Some (p\<lparr>stdout_events := es\<rparr>)\<rparr>)"
  by (simp add: readline_wait_def)

lemma readline_wait_overlong:
  "proc w = Some p \<Longrightarrow> \<not> stdout_eof p \<Longrightarrow> stdout_events p = Line l # es \<Longrightarrow>
   stream_limit < length l \<Longrightarrow>
   readline_wait w = (Inl ValueError, w\<lparr>proc := Some (p\<lparr>stdout_events := es\<rparr>)\<rparr>)"
  by (simp add: readline_wait_def)

lemma readline_wait_closed:
  "proc w = Some p \<Longrightarrow> \<not> stdout_eof p \<Longrightarrow> stdout_events p = Closed r # es \<Longrightarrow>
   length r \<le> stream_limit \<Longrightarrow>
   readline_wait w =
     (Inr r, w\<lparr>proc := Some (p\<lparr>stdout_events := [], stdout_eof := True\<rparr>)\<rparr>)"
  by (simp add: readline_wait_def)

lemma readline_wait_quiet:
  "proc w = Some p \<Longrightarrow> \<not> stdout_eof p \<Longrightarrow> quiet (stdout_events p) \<Longrightarrow>
   readline_wait w =
     (Inl TimeoutError, w\<lparr>proc := Some (p\<lparr>stdout_events := drop 1 (stdout_events p)\<rparr>)\<rparr>)"
  by (cases "stdout_events p" rule: quiet.cases) (simp_all add: readline_wait_def)

lemma readline_wait_eof:
  "at_eof w \<Longrightarrow> readline_wait w = (Inr [], w)"
  by (simp add: readline_wait_def at_eof_def split: option.splits)

lemma proc_emit [simp]: "proc (emit es w) = proc w"
  by (simp add: emit_def)

lemma io_lock_emit [simp]: "io_lock (emit es w) = io_lock w"
  by (simp add: emit_def)

lemma launches_emit [simp]: "launches (emit es w) = launches w"
  by (simp add: emit_def)

lemma effects_emit [simp]: "effects (emit es w) = effects w @ es"
  by (simp add: emit_def)

lemma readable_Cons [simp]:
  "readable (l # ls) \<longleftrightarrow> length l \<le> stream_limit \<and> readable ls"
  by (simp add: readable_def)

lemma readable_Nil [simp]: "readable []"
  by (simp add: readable_def)

lemma framing_loop_quiet:
  "proc w = Some p \<Longrightarrow> \<not> stdout_eof p \<Longrightarrow> stdout_events p = map Line ls @ rest \<Longrightarrow>
   quiet rest \<Longrightarrow> readable ls \<Longrightarrow>
   \<exists>w'. while_loop (\<lambda>s. True) loop_body (line, w) =
       Some (Inl TimeoutError, (line @ joined ls, w'))
     \<and> proc w' = Some (p\<lparr>stdout_events := drop 1 rest\<rparr>)
     \<and> length (effects w') = length (effects w) + Suc (length ls)"
proof (induction ls arbitrary: line w p)
  case Nil
  let ?w1 = "emit [PrintedBytes line] w"
  have "readline_wait ?w1 =
      (Inl TimeoutError, ?w1\<lparr>proc := Some (p\<lparr>stdout_events := drop 1 (stdout_events p)\<rparr>)\<rparr>)"
    using Nil by (intro readline_wait_quiet) simp_all
  then show ?case
    using Nil by (subst while_loop.simps) (simp add: loop_body_def joined_def)
next
  case (Cons l ls)
  let ?w1 = "emit [PrintedBytes line] w"
  let ?p2 = "p\<lparr>stdout_events := map Line ls @ rest\<rparr>"
  let ?w2 = "?w1\<lparr>proc := Some ?p2\<rparr>"
  have rd: "readline_wait ?w1 = (Inr (l @ [newline]), ?w2)"
    using Cons.prems by (intro readline_wait_line) simp_all
  have "\<exists>w'. while_loop (\<lambda>s. True) loop_body (line @ l @ [newline], ?w2) =
       Some (Inl TimeoutError, ((line @ l @ [newline]) @ joined ls, w'))
     \<and> proc w' = Some (?p2\<lparr>stdout_events := drop 1 rest\<rparr>)
     \<and> length (effects w') = length (effects ?w2) + Suc (length ls)"
    using Cons.prems by (intro Cons.IH) simp_all
  then show ?case
    by (subst while_loop.simps) (auto simp: loop_body_def rd joined_def)
qed

lemma framing_loop_overlong:
  "proc w = Some p \<Longrightarrow> \<not> stdout_eof p \<Longrightarrow> stdout_events p = map Line ls @ Line l # rest \<Longrightarrow>
   readable ls \<Longrightarrow> stream_limit < length l \<Longrightarrow>
   \<exists>w'. while_loop (\<lambda>s. True) loop_body (line, w) =
       Some (Inl ValueError, (line @ joined ls, w'))
     \<and> proc w' = Some (p\<lparr>stdout_events := rest\<rparr>)"
proof (induction ls arbitrary: line w p)
  case Nil
  let ?w1 = "emit [PrintedBytes line] w"
  have "readline_wait ?w1 = (Inl ValueError, ?w1\<lparr>proc := Some (p\<lparr>stdout_events := rest\<rparr>)\<rparr>)"
    using Nil by (intro readline_wait_overlong) simp_all
  then show ?case
    by (subst while_loop.simps) (simp add: loop_body_def joined_def)
next
  case (Cons k ls)
  let ?w1 = "emit [PrintedBytes line] w"
  let ?p2 = "p\<lparr>stdout_events := map Line ls @ Line l # rest\<rparr>"
  let ?w2 = "?w1\<lparr>proc := Some ?p2\<rparr>"
  have rd: "readline_wait ?w1 = (Inr (k @ [newline]), ?w2)"
    using Cons.prems by (intro readline_wait_line) simp_all
  have "\<exists>w'. while_loop (\<lambda>s. True) loop_body (line @ k @ [newline], ?w2) =
       Some (Inl ValueError, ((line @ k @ [newline]) @ joined ls, w'))
     \<and> proc w' = Some (?p2\<lparr>stdout_events := rest\<rparr>)"
    using Cons.prems by (intro Cons.IH) simp_all
  then show ?case
    by (subst while_loop.simps) (auto simp: loop_body_def rd joined_def)
qed

lemma framing_loop_closed:
  "proc w = Some p \<Longrightarrow> \<not> stdout_eof p \<Longrightarrow> stdout_events p = map Line ls @ Closed r # rest \<Longrightarrow>
   readable ls \<Longrightarrow> length r \<le> stream_limit \<Longrightarrow>
   while_loop (\<lambda>s. True) loop_body (line, w) = None"
proof (induction ls arbitrary: line w p)
  case Nil
  let ?w1 = "emit [PrintedBytes line] w"
  let ?w2 = "?w1\<lparr>proc := Some (p\<lparr>stdout_events := [], stdout_eof := True\<rparr>)\<rparr>"
  have rd: "readline_wait ?w1 = (Inr r, ?w2)"
    using Nil by (intro readline_wait_closed) simp_all
  have "at_eof ?w2" by (simp add: at_eof_def)
  then have "while_loop (\<lambda>s. True) loop_body (line @ r, ?w2) = None"
    by (rule while_loop_at_eof)
  then show ?case
    by (subst while_loop.simps) (simp add: loop_body_def rd)
next
  case (Cons l ls)
  let ?w1 = "emit [PrintedBytes line] w"
  let ?w2 = "?w1\<lparr>proc := Some (p\<lparr>stdout_events := map Line ls @ Closed r # rest\<rparr>)\<rparr>"
  have rd: "readline_wait ?w1 = (Inr (l @ [newline]), ?w2)"
    using Cons.prems by (intro readline_wait_line) simp_all
  have "while_loop (\<lambda>s. True) loop_body (line @ l @ [newline], ?w2) = None"
    using Cons.prems
    by (intro Cons.IH[where p = "p\<lparr>stdout_events := map Line ls @ Closed r # rest\<rparr>"]) simp_all
  then show ?case
    by (subst while_loop.simps) (simp add: loop_body_def rd)
qed

section \<open>One exchange\<close>

lemma start_kotlin_live:
  "live w \<Longrightarrow> start_kotlin w = (Inr (), emit [Printed (ascii ''NO'')] w)"
  by (simp add: start_kotlin_def)

lemma start_kotlin_io_lock: "io_lock (snd (start_kotlin w)) = io_lock w"
  by (simp add: start_kotlin_def split: sum.splits)

lemma send_started:
  "start_kotlin w = (Inr u, w1) \<Longrightarrow> proc w1 = Some p \<Longrightarrow> returncode p = None \<Longrightarrow>
   send q w = with_io_lock (send_guarded q) w1"
  by (simp add: send_def)

lemma encodable_newline: "encodable newline"
  by (simp add: encodable_def newline_def)

lemma encode_cp_newline: "encode_cp newline = [newline]"
  by (simp add: encode_cp_def newline_def)

lemma utf8_encode_snoc_newline:
  "utf8_encode (q @ [newline]) =
     (case utf8_encode q of Inl e \<Rightarrow> Inl e | Inr enc \<Rightarrow> Inr (enc @ [newline]))"
  by (simp add: utf8_encode_def encodable_newline encode_cp_newline)

lemma payload_not_empty: "utf8_encode (q @ [newline]) = Inr payload \<Longrightarrow> payload \<noteq> []"
  by (auto simp: utf8_encode_snoc_newline split: sum.splits)

lemma send_request_ok:
  assumes "proc w = Some p" "stdin_error p = None" "utf8_encode (q @ [newline]) = Inr payload"
  shows "send_request q w =
     Some (Inr (),
      emit [Wrote (pid p) payload]
        (w\<lparr>proc := Some (p\<lparr>stdin_data := stdin_data p @ payload,
              stdout_events := stdout_events p @ respond p payload\<rparr>)\<rparr>))"
  using assms payload_not_empty[OF assms(3)]
  by (simp add: send_request_def stdin_write_def stdin_drain_def stdin_accept_def deliver_def)

lemma read_reply_quiet:
  assumes "proc w = Some p" "\<not> stdout_eof p" "quiet (stdout_events p)"
  shows "\<exists>w'. read_reply w = Some (Inl TimeoutError, None, w')"
  using readline_wait_quiet[OF assms] by (simp add: read_reply_def)

lemma read_reply_lines:
  assumes "proc w = Some p" "\<not> stdout_eof p" "stdout_events p = map Line ls @ rest"
    "quiet rest" "ls \<noteq> []" "readable ls"
  shows "\<exists>w'. read_reply w = Some (Inl TimeoutError, Some (joined ls), w')"
proof -
  from assms(5) obtain l ls' where ls: "ls = l # ls'" by (cases ls) auto
  let ?p1 = "p\<lparr>stdout_events := map Line ls' @ rest\<rparr>"
  let ?w1 = "w\<lparr>proc := Some ?p1\<rparr>"
  have rd: "readline_wait w = (Inr (l @ [newline]), ?w1)"
    using assms ls by (intro readline_wait_line) simp_all
  have "\<exists>w'. while_loop (\<lambda>s. True) loop_body (l @ [newline], ?w1) =
       Some (Inl TimeoutError, ((l @ [newline]) @ joined ls', w'))
     \<and> proc w' = Some (?p1\<lparr>stdout_events := drop 1 rest\<rparr>)
     \<and> length (effects w') = length (effects ?w1) + Suc (length ls')"
    using assms ls by (intro framing_loop_quiet) simp_all
  then show ?thesis
    by (auto simp: read_reply_def rd ls joined_def)
qed

lemma read_reply_closed:
  assumes "proc w = Some p" "\<not> stdout_eof p" "stdout_events p = map Line ls @ Closed r # rest"
    "readable ls" "length r \<le> stream_limit"
  shows "read_reply w = None"
proof (cases ls)
  case Nil
  let ?w1 = "w\<lparr>proc := Some (p\<lparr>stdout_events := [], stdout_eof := True\<rparr>)\<rparr>"
  have rd: "readline_wait w = (Inr r, ?w1)"
    using assms Nil by (intro readline_wait_closed) simp_all
  have "at_eof ?w1" by (simp add: at_eof_def)
  then have "while_loop (\<lambda>s. True) loop_body (r, ?w1) = None"
    by (rule while_loop_at_eof)
  then show ?thesis by (simp add: read_reply_def rd)
next
  case (Cons l ls')
  let ?w1 = "w\<lparr>proc := Some (p\<lparr>stdout_events := map Line ls' @ Closed r # rest\<rparr>)\<rparr>"
  have rd: "readline_wait w = (Inr (l @ [newline]), ?w1)"
    using assms Cons by (intro readline_wait_line) simp_all
  have "readable ls'" using assms(4) Cons by simp
  then have "while_loop (\<lambda>s. True) loop_body (l @ [newline], ?w1) = None"
    using assms(2,5)
    by (intro framing_loop_closed[where p = "p\<lparr>stdout_events := map Line ls' @ Closed r # rest\<rparr>"])
      simp_all
  then show ?thesis by (simp add: read_reply_def rd)
qed

lemma read_reply_overlong:
  assumes "proc w = Some p" "\<not> stdout_eof p" "stdout_events p = map Line ls @ Line l # rest"
    "ls \<noteq> []" "readable ls" "stream_limit < length l"
  shows "\<exists>w'. read_reply w = Some (Inl ValueError, Some (joined ls), w')"
proof -
  from assms(4) obtain k ls' where ls: "ls = k # ls'" by (cases ls) auto
  let ?p1 = "p\<lparr>stdout_events := map Line ls' @ Line l # rest\<rparr>"
  let ?w1 = "w\<lparr>proc := Some ?p1\<rparr>"
  have rd: "readline_wait w = (Inr (k @ [newline]), ?w1)"
    using assms ls by (intro readline_wait_line) simp_all
  have "\<exists>w'. while_loop (\<lambda>s. True) loop_body (k @ [newline], ?w1) =
       Some (Inl ValueError, ((k @ [newline]) @ joined ls', w'))
     \<and> proc w' = Some (?p1\<lparr>stdout_events := rest\<rparr>)"
    using assms ls by (intro framing_loop_overlong) simp_all
  then show ?thesis
    by (auto simp: read_reply_def rd ls joined_def)
qed

lemma read_reply_at_eof:
  assumes "at_eof w"
  shows "read_reply w = None"
  using assms by (simp add: read_reply_def readline_wait_eof while_loop_at_eof)

section \<open>The exchange, case by case\<close>

lemma send_guarded_after_request:
  assumes "send_request q w = Some (Inr u, w2)" "proc w2 = Some p2" "\<not> stdout_eof p2"
    "stdout_events p2 = map Line ls @ rest" "quiet rest" "ls \<noteq> []" "readable ls"
  shows "\<exists>w'. send_guarded q w = Some (Inr (render (joined ls)), w')"
proof -
  from read_reply_lines[OF assms(2-7)] obtain w' where
    "read_reply w2 = Some (Inl TimeoutError, Some (joined ls), w')" ..
  with assms(1) show ?thesis
    by (simp add: send_guarded_def send_try_def)
qed

lemma send_after_request:
  assumes "start_kotlin w = (Inr u, w1)" "proc w1 = Some p" "returncode p = None"
    "\<not> io_lock w1"
    "send_request q (w1\<lparr>io_lock := True\<rparr>) = Some (Inr u', w2)"
    "proc w2 = Some p2" "\<not> stdout_eof p2"
    "stdout_events p2 = map Line ls @ rest" "quiet rest" "ls \<noteq> []" "readable ls"
  shows "\<exists>w'. send q w = Some (Inr (render (joined ls)), w') \<and> \<not> io_lock w'"
proof -
  from send_guarded_after_request[OF assms(5-11)] obtain w' where
    "send_guarded q (w1\<lparr>io_lock := True\<rparr>) = Some (Inr (render (joined ls)), w')" ..
  then show ?thesis
    using assms(4) by (simp add: send_started[OF assms(1-3)] with_io_lock_def)
qed

lemma send_try_lines:
  assumes "proc w = Some p" "stdin_error p = None" "\<not> stdout_eof p"
    "utf8_encode (q @ [newline]) = Inr payload"
    "stdout_events p @ respond p payload = map Line ls @ rest" "quiet rest" "ls \<noteq> []"
    "readable ls"
  shows "\<exists>w'. send_try q w = Some (Inl TimeoutError, Some (joined ls), w')"
proof -
  let ?p = "p\<lparr>stdin_data := stdin_data p @ payload,
              stdout_events := stdout_events p @ respond p payload\<rparr>"
  let ?w = "emit [Wrote (pid p) payload] (w\<lparr>proc := Some ?p\<rparr>)"
  have rq: "send_request q w = Some (Inr (), ?w)"
    using assms by (intro send_request_ok) simp_all
  have "\<exists>w'. read_reply ?w = Some (Inl TimeoutError, Some (joined ls), w')"
    using assms by (intro read_reply_lines[where p = ?p and rest = rest]) simp_all
  then show ?thesis by (simp add: send_try_def rq)
qed

lemma send_try_quiet:
  assumes "proc w = Some p" "stdin_error p = None" "\<not> stdout_eof p"
    "utf8_encode (q @ [newline]) = Inr payload"
    "quiet (stdout_events p @ respond p payload)"
  shows "\<exists>w'. send_try q w = Some (Inl TimeoutError, None, w')"
proof -
  let ?p = "p\<lparr>stdin_data := stdin_data p @ payload,
              stdout_events := stdout_events p @ respond p payload\<rparr>"
  let ?w = "emit [Wrote (pid p) payload] (w\<lparr>proc := Some ?p\<rparr>)"
  have rq: "send_request q w = Some (Inr (), ?w)"
    using assms by (intro send_request_ok) simp_all
  have "\<exists>w'. read_reply ?w = Some (Inl TimeoutError, None, w')"
    using assms by (intro read_reply_quiet[where p = ?p]) simp_all
  then show ?thesis by (simp add: send_try_def rq)
qed

lemma send_try_closed:
  assumes "proc w = Some p" "stdin_error p = None" "\<not> stdout_eof p"
    "utf8_encode (q @ [newline]) = Inr payload"
    "stdout_events p @ respond p payload = map Line ls @ Closed r # rest"
    "readable ls" "length r \<le> stream_limit"
  shows "send_try q w = None"
proof -
  let ?p = "p\<lparr>stdin_data := stdin_data p @ payload,
              stdout_events := stdout_events p @ respond p payload\<rparr>"
  let ?w = "emit [Wrote (pid p) payload] (w\<lparr>proc := Some ?p\<rparr>)"
  have rq: "send_request q w = Some (Inr (), ?w)"
    using assms by (intro send_request_ok) simp_all
  have "read_reply ?w = None"
    using assms
    by (intro read_reply_closed[where p = ?p and ls = ls and r = r and rest = rest]) simp_all
  then show ?thesis by (simp add: send_try_def rq)
qed

lemma send_try_overlong:
  assumes "proc w = Some p" "stdin_error p = None" "\<not> stdout_eof p"
    "utf8_encode (q @ [newline]) = Inr payload"
    "stdout_events p @ respond p payload = map Line ls @ Line l # rest"
    "ls \<noteq> []" "readable ls" "stream_limit < length l"
  shows "\<exists>w'. send_try q w = Some (Inl ValueError, Some (joined ls), w')"
proof -
  let ?p = "p\<lparr>stdin_data := stdin_data p @ payload,
              stdout_events := stdout_events p @ respond p payload\<rparr>"
  let ?w = "emit [Wrote (pid p) payload] (w\<lparr>proc := Some ?p\<rparr>)"
  have rq: "send_request q w = Some (Inr (), ?w)"
    using assms by (intro send_request_ok) simp_all
  have "\<exists>w'. read_reply ?w = Some (Inl ValueError, Some (joined ls), w')"
    using assms
    by (intro read_reply_overlong[where p = ?p and ls = ls and l = l and rest = rest]) simp_all
  then show ?thesis by (simp add: send_try_def rq)
qed

lemma send_try_at_eof:
  assumes "proc w = Some p" "stdin_error p = None" "stdout_eof p"
    "utf8_encode (q @ [newline]) = Inr payload"
  shows "send_try q w = None"
proof -
  let ?p = "p\<lparr>stdin_data := stdin_data p @ payload,
              stdout_events := stdout_events p @ respond p payload\<rparr>"
  let ?w = "emit [Wrote (pid p) payload] (w\<lparr>proc := Some ?p\<rparr>)"
  have rq: "send_request q w = Some (Inr (), ?w)"
    using assms by (intro send_request_ok) simp_all
  have "read_reply ?w = None"
    using assms by (intro read_reply_at_eof) (simp add: at_eof_def)
  then show ?thesis by (simp add: send_try_def rq)
qed

lemma send_guarded_lines:
  assumes "proc w = Some p" "stdin_error p = None" "\<not> stdout_eof p"
    "utf8_encode (q @ [newline]) = Inr payload"
    "stdout_events p @ respond p payload = map Line ls @ rest" "quiet rest" "ls \<noteq> []"
    "readable ls"
  shows "\<exists>w'. send_guarded q w = Some (Inr (render (joined ls)), w')"
proof -
  from send_try_lines[OF assms] obtain w' where
    "send_try q w = Some (Inl TimeoutError, Some (joined ls), w')" ..
  then show ?thesis by (simp add: send_guarded_def)
qed

lemma send_lines_then_quiet:
  assumes "start_kotlin w = (Inr u, w1)" "proc w1 = Some p" "returncode p = None"
    "stdin_error p = None" "\<not> stdout_eof p" "\<not> io_lock w1"
    "utf8_encode (q @ [newline]) = Inr payload"
    "stdout_events p @ respond p payload = map Line ls @ rest" "quiet rest" "ls \<noteq> []"
    "readable ls"
  shows "\<exists>w'. send q w = Some (Inr (render (joined ls)), w') \<and> \<not> io_lock w'"
proof -
  have "\<exists>w'. send_try q (w1\<lparr>io_lock := True\<rparr>) = Some (Inl TimeoutError, Some (joined ls), w')"
    using assms by (intro send_try_lines[where p = p and payload = payload and rest = rest]) simp_all
  then show ?thesis
    using assms(6) by (auto simp: send_started[OF assms(1-3)] with_io_lock_def send_guarded_def)
qed

lemma send_quiet_first:
  assumes "start_kotlin w = (Inr u, w1)" "proc w1 = Some p" "returncode p = None"
    "stdin_error p = None" "\<not> stdout_eof p" "\<not> io_lock w1"
    "utf8_encode (q @ [newline]) = Inr payload"
    "quiet (stdout_events p @ respond p payload)"
  shows "\<exists>w'. send q w = Some (Inl UnboundLocalError, w') \<and> \<not> io_lock w'"
proof -
  have "\<exists>w'. send_try q (w1\<lparr>io_lock := True\<rparr>) = Some (Inl TimeoutError, None, w')"
    using assms by (intro send_try_quiet[where p = p and payload = payload]) simp_all
  then show ?thesis
    using assms(6) by (auto simp: send_started[OF assms(1-3)] with_io_lock_def send_guarded_def)
qed

lemma send_closed:
  assumes "start_kotlin w = (Inr u, w1)" "proc w1 = Some p" "returncode p = None"
    "stdin_error p = None" "\<not> stdout_eof p"
    "utf8_encode (q @ [newline]) = Inr payload"
    "stdout_events p @ respond p payload = map Line ls @ Closed r # rest"
    "readable ls" "length r \<le> stream_limit"
  shows "send q w = None"
proof -
  have "send_try q (w1\<lparr>io_lock := True\<rparr>) = None"
    using assms
    by (intro send_try_closed[where p = p and payload = payload and ls = ls and r = r and rest = rest])
      simp_all
  then show ?thesis
    by (simp add: send_started[OF assms(1-3)] with_io_lock_def send_guarded_def)
qed

lemma send_overlong:
  assumes "start_kotlin w = (Inr u, w1)" "proc w1 = Some p" "returncode p = None"
    "stdin_error p = None" "\<not> stdout_eof p" "\<not> io_lock w1"
    "utf8_encode (q @ [newline]) = Inr payload"
    "stdout_events p @ respond p payload = map Line ls @ Line l # rest"
    "ls \<noteq> []" "readable ls" "stream_limit < length l"
  shows "\<exists>w'. send q w = Some (Inl ValueError, w') \<and> \<not> io_lock w'"
proof -
  have "\<exists>w'. send_try q (w1\<lparr>io_lock := True\<rparr>) = Some (Inl ValueError, Some (joined ls), w')"
    using assms
    by (intro send_try_overlong[where p = p and payload = payload and l = l and rest = rest])
      simp_all
  then show ?thesis
    using assms(6) by (auto simp: send_started[OF assms(1-3)] with_io_lock_def send_guarded_def)
qed

lemma send_at_eof:
  assumes "start_kotlin w = (Inr u, w1)" "proc w1 = Some p" "returncode p = None"
    "stdin_error p = None" "stdout_eof p"
    "utf8_encode (q @ [newline]) = Inr payload"
  shows "send q w = None"
proof -
  have "send_try q (w1\<lparr>io_lock := True\<rparr>) = None"
    using assms by (intro send_try_at_eof[where p = p and payload = payload]) simp_all
  then show ?thesis
    by (simp add: send_started[OF assms(1-3)] with_io_lock_def send_guarded_def)
qed

lemma utf8_encode_ascii:
  "list_all (\<lambda>c. c < 128) s \<Longrightarrow> utf8_encode s = Inr s"
proof -
  assume a: "list_all (\<lambda>c. c < 128) s"
  then have "list_all encodable s"
    by (induction s) (auto simp: encodable_def)
  moreover from a have "concat (map encode_cp s) = s"
    by (induction s) (auto simp: encode_cp_def)
  ultimately show ?thesis by (simp add: utf8_encode_def)
qed

lemma utf8_decode_ascii:
  "list_all (\<lambda>c. c < 128) s \<Longrightarrow> utf8_decode s = s"
  by (induction s) (auto simp: decode_one_def)

lemma running_facts:
  "proc (running p) = Some p" "io_lock (running p) = False"
  by (simp_all add: running_def fresh_def)

lemma start_kotlin_running:
  "returncode p = None \<Longrightarrow>
   start_kotlin (running p) = (Inr (), emit [Printed (ascii ''NO'')] (running p))"
  by (rule start_kotlin_live) (simp add: live_def running_facts)

lemma send_releases_lock:
  assumes "send q w = Some (r, w')"
  shows "io_lock w' = io_lock w"
proof -
  obtain r1 w1 where s: "start_kotlin w = (r1, w1)" by (cases "start_kotlin w")
  have l: "io_lock w1 = io_lock w" using start_kotlin_io_lock[of w] s by simp
  show ?thesis
    using assms s l
    by (auto simp: send_def with_io_lock_def split: sum.splits option.splits if_splits)
qed

lemma start_kotlin_exited:
  "start_kotlin (running (exited 1 rc)) =
     (Inr (),
      emit [Spawned 2, DrainStarted 2]
        ((running (exited 1 rc))\<lparr>proc := Some (echo_worker 2), launches := 2,
           stderr_task := Some 2\<rparr>))"
  by (simp add: start_kotlin_def live_def running_def fresh_def exited_def echo_worker_def
      numeral_2_eq_2)

section \<open>What ends the reading\<close>

lemma readline_wait_raises:
  "readline_wait w = (Inl e, w') \<Longrightarrow>
   e = TimeoutError \<or> e = ValueError \<or> e = OSError \<or> e = AttributeError"
  by (auto simp: readline_wait_def split: option.splits if_splits list.splits read_event.splits)

lemma readline_wait_raises_live:
  "proc w \<noteq> None \<Longrightarrow> readline_wait w = (Inl e, w') \<Longrightarrow>
   e = TimeoutError \<or> e = ValueError \<or> e = OSError"
  by (auto simp: readline_wait_def split: option.splits if_splits list.splits read_event.splits)

lemma readline_wait_proc:
  "proc w \<noteq> None \<Longrightarrow> readline_wait w = (r, w') \<Longrightarrow> proc w' \<noteq> None"
  by (auto simp: readline_wait_def split: option.splits if_splits list.splits read_event.splits)

lemma readline_wait_effects:
  "readline_wait w = (r, w') \<Longrightarrow> effects w' = effects w"
  by (auto simp: readline_wait_def split: option.splits if_splits list.splits read_event.splits)

lemma readline_wait_stdin:
  "readline_wait w = (r, w') \<Longrightarrow>
   map_option stdin_data (proc w') = map_option stdin_data (proc w)"
  by (auto simp: readline_wait_def split: option.splits if_splits list.splits read_event.splits)

lemma while_loop_raised:
  fixes b :: "'s \<Rightarrow> (exn + unit) \<times> 's"
  assumes run: "while_loop c b s = Some (Inl e, s')"
    and inv: "I s"
    and step: "\<And>s u s'. I s \<Longrightarrow> b s = (Inr u, s') \<Longrightarrow> I s'"
    and raise: "\<And>s e s'. I s \<Longrightarrow> b s = (Inl e, s') \<Longrightarrow> Q e s'"
  shows "Q e s'"
proof -
  have "I s \<longrightarrow> (case (Inl e :: exn + unit, s') of (Inl e, t) \<Rightarrow> Q e t | (Inr u, t) \<Rightarrow> True)"
    using run
  proof (rule while_loop_rule[where
        P = "\<lambda>(s::'s) (y::(exn + unit) \<times> 's).
               I s \<longrightarrow> (case y of (Inl e, t) \<Rightarrow> Q e t | (Inr u, t) \<Rightarrow> True)"])
    fix s e s'
    assume "b s = (Inl e, s')"
    then show "I s \<longrightarrow> (case (Inl e :: exn + unit, s') of (Inl e, t) \<Rightarrow> Q e t | (Inr u, t) \<Rightarrow> True)"
      using raise by simp
  next
    fix s u s' and y :: "(exn + unit) \<times> 's"
    assume "b s = (Inr u, s')"
      and "I s' \<longrightarrow> (case y of (Inl e, t) \<Rightarrow> Q e t | (Inr u, t) \<Rightarrow> True)"
    then show "I s \<longrightarrow> (case y of (Inl e, t) \<Rightarrow> Q e t | (Inr u, t) \<Rightarrow> True)"
      using step by blast
  qed simp
  with inv show ?thesis by simp
qed


lemma framing_loop_raises:
  assumes "while_loop (\<lambda>s. True) loop_body s = Some (Inl e, s')"
  shows "e = TimeoutError \<or> e = ValueError \<or> e = OSError \<or> e = AttributeError"
  using assms
proof (rule while_loop_raised[where I = "\<lambda>s. True"
      and Q = "\<lambda>e s'. e = TimeoutError \<or> e = ValueError \<or> e = OSError \<or> e = AttributeError"])
  fix s :: "bytes \<times> world" and e s'
  assume "loop_body s = (Inl e, s')"
  then show "e = TimeoutError \<or> e = ValueError \<or> e = OSError \<or> e = AttributeError"
    by (auto simp: loop_body_def split: prod.splits sum.splits dest: readline_wait_raises)
qed simp_all

lemma framing_loop_raises_live:
  assumes "while_loop (\<lambda>s. True) loop_body s = Some (Inl e, s')" "proc (snd s) \<noteq> None"
  shows "e = TimeoutError \<or> e = ValueError \<or> e = OSError"
  using assms
proof (rule while_loop_raised[where I = "\<lambda>s. proc (snd s) \<noteq> None"
      and Q = "\<lambda>e s'. e = TimeoutError \<or> e = ValueError \<or> e = OSError"])
  fix s :: "bytes \<times> world" and e s'
  assume "proc (snd s) \<noteq> None" "loop_body s = (Inl e, s')"
  then show "e = TimeoutError \<or> e = ValueError \<or> e = OSError"
    by (auto simp: loop_body_def split: prod.splits sum.splits
        dest!: readline_wait_raises_live[rotated])
next
  fix s :: "bytes \<times> world" and u s'
  assume "proc (snd s) \<noteq> None" "loop_body s = (Inr u, s')"
  then show "proc (snd s') \<noteq> None"
    by (auto simp: loop_body_def split: prod.splits sum.splits dest!: readline_wait_proc[rotated])
qed

lemma read_reply_no_return: "read_reply w \<noteq> Some (Inr r, l, w')"
  by (auto simp: read_reply_def while_true_no_exit
      split: prod.splits sum.splits option.splits if_splits)

lemma read_reply_raises:
  "read_reply w = Some (Inl e, l, w') \<Longrightarrow>
   e = TimeoutError \<or> e = ValueError \<or> e = OSError \<or> e = AttributeError"
  by (auto simp: read_reply_def while_true_no_exit
      split: prod.splits sum.splits option.splits if_splits
      dest: readline_wait_raises framing_loop_raises)

lemma read_reply_raises_live:
  assumes "read_reply w = Some (Inl e, l, w')" "proc w \<noteq> None"
  shows "e = TimeoutError \<or> e = ValueError \<or> e = OSError"
proof -
  obtain r w1 where rd: "readline_wait w = (r, w1)" by (cases "readline_wait w")
  show ?thesis
  proof (cases r)
    case (Inl e')
    with rd assms show ?thesis
      by (auto simp: read_reply_def dest: readline_wait_raises_live[rotated])
  next
    case (Inr b)
    from rd assms(2) have p1: "proc w1 \<noteq> None" by (rule readline_wait_proc[rotated])
    from assms(1) rd Inr obtain s' where
      "while_loop (\<lambda>s. True) loop_body (b, w1) = Some (Inl e, s')"
      by (auto simp: read_reply_def while_true_no_exit
          split: prod.splits sum.splits option.splits if_splits)
    then show ?thesis using p1 by (intro framing_loop_raises_live[where s = "(b, w1)"]) simp_all
  qed
qed

lemma send_try_no_return: "send_try q w \<noteq> Some (Inr r, l, w')"
  by (auto simp: send_try_def read_reply_no_return split: option.splits prod.splits sum.splits)

lemma send_guarded_response:
  assumes "send_guarded q w = Some (Inr r, w')"
  shows "\<exists>line. send_try q w = Some (Inl TimeoutError, Some line, w') \<and> r = render line"
  using assms send_try_no_return[of q w]
  by (auto simp: send_guarded_def split: option.splits prod.splits sum.splits if_splits)

section \<open>What is written\<close>

lemma writes_append: "writes (xs @ ys) = writes xs @ writes ys"
  by (induction xs rule: writes.induct) simp_all

lemma lines_from_count: "length (lines_from acc bs) = count_list bs newline"
  by (induction bs arbitrary: acc) simp_all

lemma encode_cp_count:
  "count_list (encode_cp c) newline = (if c = newline then 1 else 0)"
  by (simp add: encode_cp_def newline_def)

lemma count_list_append: "count_list (xs @ ys) a = count_list xs a + count_list ys a"
  by (induction xs) simp_all

lemma encoded_newlines:
  "count_list (concat (map encode_cp q)) newline = count_list q newline"
  by (induction q) (simp_all add: count_list_append encode_cp_count)

lemma protocol_lines_count:
  assumes "utf8_encode q = Inr enc"
  shows "length (protocol_lines (enc @ [newline])) = Suc (count_list q newline)"
proof -
  from assms have "enc = concat (map encode_cp q)"
    by (simp add: utf8_encode_def split: if_splits)
  then show ?thesis
    by (simp add: protocol_lines_def lines_from_count count_list_append encoded_newlines)
qed

lemma stdin_accept_data:
  "stdin_data (stdin_accept payload p) =
     (case stdin_error p of
        None \<Rightarrow> stdin_data p @ payload
      | Some (Fault k waiting f) \<Rightarrow> stdin_data p @ take k (waiting @ payload))"
  by (simp add: stdin_accept_def deliver_def split: option.splits stdin_fault.splits)

lemma stdin_accept_pid: "pid (stdin_accept payload p) = pid p"
  by (simp add: stdin_accept_def deliver_def split: option.splits stdin_fault.splits)

lemma stdin_drain_keeps:
  assumes "stdin_drain w = Some (r, w')"
  shows "effects w' = effects w
    \<and> map_option stdin_data (proc w') = map_option stdin_data (proc w)"
  using assms
  by (auto simp: stdin_drain_def
      split: option.splits stdin_fault.splits drain_fate.splits if_splits)

lemma send_request_unfold:
  assumes "utf8_encode q = Inr enc" "proc w = Some p"
  shows "send_request q w =
     stdin_drain (emit [Wrote (pid p) (enc @ [newline])]
       (w\<lparr>proc := Some (stdin_accept (enc @ [newline]) p)\<rparr>))"
  using assms by (simp add: send_request_def stdin_write_def utf8_encode_snoc_newline)

lemma send_request_unencodable:
  assumes "utf8_encode q = Inl e"
  shows "send_request q w = Some (Inl e, w)"
  using assms by (simp add: send_request_def utf8_encode_snoc_newline)

lemma send_request_keeps:
  assumes "send_request q w = Some (r, w')" "utf8_encode q = Inr enc" "proc w = Some p"
  shows "writes (effects w') = writes (effects w) @ [enc @ [newline]]
    \<and> map_option stdin_data (proc w') = Some (stdin_data (stdin_accept (enc @ [newline]) p))"
proof -
  let ?w1 = "emit [Wrote (pid p) (enc @ [newline])]
       (w\<lparr>proc := Some (stdin_accept (enc @ [newline]) p)\<rparr>)"
  from assms have "stdin_drain ?w1 = Some (r, w')"
    by (simp add: send_request_unfold)
  from stdin_drain_keeps[OF this] show ?thesis
    by (simp add: writes_append)
qed

lemma loop_body_keeps:
  "loop_body s = (r, s') \<Longrightarrow>
   writes (effects (snd s')) = writes (effects (snd s))
   \<and> map_option stdin_data (proc (snd s')) = map_option stdin_data (proc (snd s))"
proof -
  assume b: "loop_body s = (r, s')"
  obtain line w where s: "s = (line, w)" by (cases s)
  obtain r1 w1 where rd: "readline_wait (emit [PrintedBytes line] w) = (r1, w1)"
    by (cases "readline_wait (emit [PrintedBytes line] w)")
  from rd have "effects w1 = effects (emit [PrintedBytes line] w)"
    and "map_option stdin_data (proc w1) =
      map_option stdin_data (proc (emit [PrintedBytes line] w))"
    by (rule readline_wait_effects, rule readline_wait_stdin)
  moreover from b s rd have "snd s' = w1"
    by (auto simp: loop_body_def split: sum.splits)
  ultimately show ?thesis
    using s by (simp add: writes_append)
qed

lemma framing_loop_keeps:
  assumes "while_loop (\<lambda>s. True) loop_body s = Some y"
  shows "writes (effects (snd (snd y))) = writes (effects (snd s))
    \<and> map_option stdin_data (proc (snd (snd y))) = map_option stdin_data (proc (snd s))"
  using assms
proof (rule while_loop_rule[where
      P = "\<lambda>(s::bytes \<times> world) (y::(exn + unit) \<times> bytes \<times> world).
             writes (effects (snd (snd y))) = writes (effects (snd s))
             \<and> map_option stdin_data (proc (snd (snd y))) =
                 map_option stdin_data (proc (snd s))"])
  fix s :: "bytes \<times> world" and e s'
  assume "loop_body s = (Inl e, s')"
  then show "writes (effects (snd (snd (Inl e :: exn + unit, s')))) = writes (effects (snd s))
      \<and> map_option stdin_data (proc (snd (snd (Inl e :: exn + unit, s')))) =
          map_option stdin_data (proc (snd s))"
    by (simp add: loop_body_keeps)
next
  fix s :: "bytes \<times> world" and u s' and y :: "(exn + unit) \<times> bytes \<times> world"
  assume "loop_body s = (Inr u, s')"
    and "writes (effects (snd (snd y))) = writes (effects (snd s'))
      \<and> map_option stdin_data (proc (snd (snd y))) = map_option stdin_data (proc (snd s'))"
  then show "writes (effects (snd (snd y))) = writes (effects (snd s))
      \<and> map_option stdin_data (proc (snd (snd y))) = map_option stdin_data (proc (snd s))"
    by (simp add: loop_body_keeps)
qed simp

lemma read_reply_keeps:
  assumes "read_reply w = Some (r, l, w')"
  shows "writes (effects w') = writes (effects w)
    \<and> map_option stdin_data (proc w') = map_option stdin_data (proc w)"
proof -
  obtain r1 w1 where rd: "readline_wait w = (r1, w1)" by (cases "readline_wait w")
  then have e1: "effects w1 = effects w"
    and d1: "map_option stdin_data (proc w1) = map_option stdin_data (proc w)"
    by (rule readline_wait_effects, rule readline_wait_stdin)
  show ?thesis
  proof (cases r1)
    case (Inl e)
    with assms rd e1 d1 show ?thesis by (simp add: read_reply_def)
  next
    case (Inr b)
    with assms rd obtain y where run: "while_loop (\<lambda>s. True) loop_body (b, w1) = Some y"
      and w': "w' = snd (snd y)"
      by (auto simp: read_reply_def split: option.splits prod.splits sum.splits if_splits)
    from framing_loop_keeps[OF run] e1 d1 w' show ?thesis by simp
  qed
qed

lemma start_kotlin_writes:
  "writes (effects (snd (start_kotlin w))) = writes (effects w)"
  by (simp add: start_kotlin_def writes_append split: sum.splits)

lemma send_guarded_keeps:
  assumes "send_guarded q w = Some (r, w')" "utf8_encode q = Inr enc" "proc w = Some p"
  shows "writes (effects w') = writes (effects w) @ [enc @ [newline]]
    \<and> map_option stdin_data (proc w') = Some (stdin_data (stdin_accept (enc @ [newline]) p))"
proof -
  from assms(1) obtain r0 l where t: "send_try q w = Some (r0, l, w')"
    by (auto simp: send_guarded_def split: option.splits prod.splits sum.splits if_splits)
  then obtain r1 w1 where rq: "send_request q w = Some (r1, w1)"
    by (auto simp: send_try_def split: option.splits)
  note k = send_request_keeps[OF rq assms(2,3)]
  show ?thesis
  proof (cases r1)
    case (Inl e)
    with t rq have "w' = w1" by (simp add: send_try_def)
    with k show ?thesis by simp
  next
    case (Inr u)
    with t rq have "read_reply w1 = Some (r0, l, w')" by (simp add: send_try_def)
    from read_reply_keeps[OF this] k show ?thesis by simp
  qed
qed

lemma send_keeps:
  assumes "send q w = Some (r, w')" "start_kotlin w = (Inr u, w1)" "proc w1 = Some p"
    "returncode p = None" "utf8_encode q = Inr enc"
  shows "writes (effects w') = writes (effects w) @ [enc @ [newline]]
    \<and> map_option stdin_data (proc w') = Some (stdin_data (stdin_accept (enc @ [newline]) p))"
proof -
  have e1: "writes (effects w1) = writes (effects w)"
    using start_kotlin_writes[of w] assms(2) by simp
  from assms(1) have "with_io_lock (send_guarded q) w1 = Some (r, w')"
    by (simp add: send_started[OF assms(2-4)])
  then obtain w2 where g: "send_guarded q (w1\<lparr>io_lock := True\<rparr>) = Some (r, w2)"
    and w': "w' = w2\<lparr>io_lock := False\<rparr>"
    by (auto simp: with_io_lock_def split: if_splits option.splits)
  have "proc (w1\<lparr>io_lock := True\<rparr>) = Some p" using assms(3) by simp
  from send_guarded_keeps[OF g assms(5) this] e1 w' show ?thesis by simp
qed

section \<open>Starting and stopping the child\<close>

text \<open>
  C8. \<^verbatim>\<open>start_kotlin\<close> is idempotent: in every state in which a process is
  referenced and has no recorded exit status, the call launches nothing (the count of
  launches and the drain task stay as they were, the only effect is the printed
  \<^verbatim>\<open>NO\<close>), leaves the process-wide reference unchanged, and leaves the state live, so
  that any further call is again a no-op.
\<close>

theorem start_kotlin_idempotent:
  assumes "live w"
  shows "fst (start_kotlin w) = Inr ()
    \<and> proc (snd (start_kotlin w)) = proc w
    \<and> launches (snd (start_kotlin w)) = launches w
    \<and> stderr_task (snd (start_kotlin w)) = stderr_task w
    \<and> effects (snd (start_kotlin w)) = effects w @ [Printed (ascii ''NO'')]
    \<and> live (snd (start_kotlin w))"
  using assms by (simp add: start_kotlin_def live_def emit_def)

theorem start_kotlin_idempotent_witness:
  "live (running (echo_worker 1))
    \<and> proc (snd (start_kotlin (running (echo_worker 1)))) = Some (echo_worker 1)
    \<and> launches (snd (start_kotlin (running (echo_worker 1)))) = 1"
proof -
  have l: "live (running (echo_worker 1))"
    by (simp add: live_def running_def fresh_def echo_worker_def)
  show ?thesis
    using l start_kotlin_idempotent[OF l] by (simp add: running_def fresh_def)
qed

text \<open>
  C9. \<^verbatim>\<open>stop_kotlin\<close> does nothing when no process is referenced. When the
  referenced process has no recorded exit status it requests termination and waits for
  the exit with the two-second timeout; it kills the process (and waits without a
  timeout) only if the process has not exited within that period. A process whose exit
  status is recorded is sent nothing. In every case the reference is cleared.
\<close>

theorem stop_kotlin_behaviour:
  "(proc w = None \<longrightarrow> stop_kotlin w = w)
   \<and> (\<forall>p. proc w = Some p \<and> returncode p = None \<and> sigterm_exit p \<noteq> None \<longrightarrow>
         effects (stop_kotlin w) =
           effects w @ [SigTerm (pid p), Waited (pid p) (Some 2)])
   \<and> (\<forall>p. proc w = Some p \<and> returncode p = None \<and> sigterm_exit p = None \<longrightarrow>
         effects (stop_kotlin w) =
           effects w @ [SigTerm (pid p), Waited (pid p) (Some 2), SigKill (pid p), Waited (pid p) None])
   \<and> (\<forall>p. proc w = Some p \<and> returncode p \<noteq> None \<longrightarrow> effects (stop_kotlin w) = effects w)
   \<and> proc (stop_kotlin w) = None
   \<and> io_lock (stop_kotlin w) = io_lock w \<and> launches (stop_kotlin w) = launches w"
  by (auto simp: stop_kotlin_def emit_def grace_period_def Let_def split: option.splits)

theorem stop_kotlin_behaviour_witness:
  "stop_kotlin fresh = fresh
   \<and> effects (stop_kotlin (running (echo_worker 1))) = [SigTerm 1, Waited 1 (Some 2)]
   \<and> effects (stop_kotlin (running (stubborn 1))) =
       [SigTerm 1, Waited 1 (Some 2), SigKill 1, Waited 1 None]
   \<and> effects (stop_kotlin (running (exited 1 (- 9)))) = []
   \<and> proc (stop_kotlin (running (stubborn 1))) = None"
proof -
  have a: "proc fresh = None" by (simp add: fresh_def)
  have b: "proc (running (echo_worker 1)) = Some (echo_worker 1)
      \<and> returncode (echo_worker 1) = None \<and> sigterm_exit (echo_worker 1) \<noteq> None"
    by (simp add: running_def echo_worker_def)
  have c: "proc (running (stubborn 1)) = Some (stubborn 1)
      \<and> returncode (stubborn 1) = None \<and> sigterm_exit (stubborn 1) = None"
    by (simp add: running_def echo_worker_def stubborn_def)
  have d: "proc (running (exited 1 (- 9))) = Some (exited 1 (- 9))
      \<and> returncode (exited 1 (- 9)) \<noteq> None"
    by (simp add: running_def exited_def)
  have e: "effects (running p) = []" "pid (echo_worker n) = n" "pid (stubborn n) = n"
      "pid (exited n rc) = n" for p n rc
    by (simp_all add: running_def fresh_def echo_worker_def stubborn_def exited_def)
  show ?thesis
    using a b c d
      stop_kotlin_behaviour[of fresh]
      stop_kotlin_behaviour[of "running (echo_worker 1)"]
      stop_kotlin_behaviour[of "running (stubborn 1)"]
      stop_kotlin_behaviour[of "running (exited 1 (- 9))"]
    by (simp add: e)
qed

section \<open>What a call of \<^verbatim>\<open>send\<close> does\<close>

text \<open>
  C1. Every call of \<^verbatim>\<open>send\<close> is to end with a response or an error and to give
  the token back, also when the child's output reaches end-of-file during the exchange.
  The code does not: with a child that answers one line and then closes its output, the
  first read gets the line, the next read gets \<^verbatim>\<open>b""\<close>, and so does every read
  after it, so the loop at lines 100 to 102 never ends, the check for \<^verbatim>\<open>b""\<close> below
  it is never reached, and the call neither returns nor releases the token.
\<close>

theorem send_hangs_at_end_of_stream:
  "send (ascii ''hello'') (running (one_shot 1)) = None"
proof -
  let ?q = "ascii ''hello''"
  let ?w = "running (one_shot 1)"
  have 1: "start_kotlin ?w = (Inr (), emit [Printed (ascii ''NO'')] ?w)"
    by (rule start_kotlin_running) (simp add: one_shot_def echo_worker_def)
  have 5: "utf8_encode (?q @ [newline]) = Inr (?q @ [newline])"
    by (rule utf8_encode_ascii) (simp add: ascii_def newline_def)
  have 6: "stdout_events (one_shot 1) @ respond (one_shot 1) (?q @ [newline]) =
      map Line [ascii ''ECHO:hello''] @ Closed [] # []"
    by (simp add: one_shot_def echo_worker_def echo_def protocol_lines_def ascii_def newline_def)
  show ?thesis
    by (rule send_closed[OF 1 _ _ _ _ 5 6])
      (simp_all add: running_facts one_shot_def echo_worker_def ascii_def stream_limit_def)
qed

text \<open>
  C2. When the first read times out, or the stream ends before a byte was read, the call
  is to fail with HTTP 500 and the no-output detail. The code does neither: on the
  timeout the handler reads the local \<^verbatim>\<open>line\<close>, which is unbound, and the call ends
  with \<^verbatim>\<open>UnboundLocalError\<close>; at end-of-file with no byte read the loop never
  ends.
\<close>

theorem send_no_output_is_not_reported:
  "map_option fst (send (ascii ''x'') (running (mute 1))) = Some (Inl UnboundLocalError)
   \<and> send (ascii ''x'') (running (closing 1)) = None"
proof -
  let ?q = "ascii ''x''"
  have 5: "utf8_encode (?q @ [newline]) = Inr (?q @ [newline])"
    by (rule utf8_encode_ascii) (simp add: ascii_def newline_def)
  have m1: "start_kotlin (running (mute 1)) =
      (Inr (), emit [Printed (ascii ''NO'')] (running (mute 1)))"
    by (rule start_kotlin_running) (simp add: mute_def echo_worker_def)
  have "\<exists>w'. send ?q (running (mute 1)) = Some (Inl UnboundLocalError, w') \<and> \<not> io_lock w'"
    by (rule send_quiet_first[OF m1 _ _ _ _ _ 5, where p = "mute 1"])
      (simp_all add: running_facts mute_def echo_worker_def)
  then have a: "map_option fst (send ?q (running (mute 1))) = Some (Inl UnboundLocalError)"
    by auto
  have c1: "start_kotlin (running (closing 1)) =
      (Inr (), emit [Printed (ascii ''NO'')] (running (closing 1)))"
    by (rule start_kotlin_running) (simp add: closing_def echo_worker_def)
  have b: "send ?q (running (closing 1)) = None"
    by (rule send_closed[OF c1 _ _ _ _ 5, where p = "closing 1" and ls = "[]" and r = "[]"
          and rest = "[]"])
      (simp_all add: running_facts closing_def echo_worker_def)
  from a b show ?thesis by simp
qed

text \<open>
  C3. When a read times out after at least one line was read, the call returns a normal
  response made of what was read so far: the lines, joined, decoded, with the trailing
  newlines stripped; the token is free again afterwards. The call is one that got as
  far: \<^verbatim>\<open>start_kotlin\<close> left a process without a recorded exit status, the token
  was free, the request was written and flushed, and the child's output from then on is
  one or more lines, each within the limit of the stream reader, followed by a silence.
\<close>

theorem timeout_after_lines_returns_partial_buffer:
  assumes "start_kotlin w = (Inr u, w1)" "proc w1 = Some p" "returncode p = None"
    "\<not> io_lock w1"
    "send_request q (w1\<lparr>io_lock := True\<rparr>) = Some (Inr u', w2)"
    "proc w2 = Some p2" "\<not> stdout_eof p2"
    "stdout_events p2 = map Line ls @ rest" "quiet rest" "ls \<noteq> []" "readable ls"
  shows "\<exists>w'. send q w = Some (Inr (render (joined ls)), w') \<and> \<not> io_lock w'"
  using assms by (rule send_after_request)

theorem timeout_after_lines_returns_partial_buffer_witness:
  "map_option fst (send (ascii ''a'' @ [newline] @ ascii ''b'') (running (echo_worker 1))) =
     Some (Inr (Out (ascii ''ECHO:a'' @ [newline] @ ascii ''ECHO:b'')))"
proof -
  let ?q = "ascii ''a'' @ [newline] @ ascii ''b''"
  let ?w = "running (echo_worker 1)"
  let ?w1 = "emit [Printed (ascii ''NO'')] ?w"
  let ?ls = "[ascii ''ECHO:a'', ascii ''ECHO:b'']"
  let ?p2 = "(echo_worker 1)\<lparr>stdin_data := stdin_data (echo_worker 1) @ ?q @ [newline],
      stdout_events := stdout_events (echo_worker 1) @ respond (echo_worker 1) (?q @ [newline])\<rparr>"
  let ?w2 = "emit [Wrote (pid (echo_worker 1)) (?q @ [newline])]
      (?w1\<lparr>io_lock := True, proc := Some ?p2\<rparr>)"
  have 1: "start_kotlin ?w = (Inr (), ?w1)"
    by (rule start_kotlin_running) (simp add: echo_worker_def)
  have 2: "proc ?w1 = Some (echo_worker 1)"
    by (simp add: running_facts)
  have 3: "returncode (echo_worker 1) = None"
    by (simp add: echo_worker_def)
  have 4: "\<not> io_lock ?w1"
    by (simp add: running_facts)
  have enc: "utf8_encode (?q @ [newline]) = Inr (?q @ [newline])"
    by (rule utf8_encode_ascii) (simp add: ascii_def newline_def)
  have 5: "send_request ?q (?w1\<lparr>io_lock := True\<rparr>) = Some (Inr (), ?w2)"
    by (rule send_request_ok[OF _ _ enc]) (simp_all add: running_facts echo_worker_def)
  have 6: "proc ?w2 = Some ?p2" by simp
  have 7: "\<not> stdout_eof ?p2" by (simp add: echo_worker_def)
  have 8: "stdout_events ?p2 = map Line ?ls @ []"
    by (simp add: echo_worker_def echo_def protocol_lines_def ascii_def newline_def)
  have 9: "quiet []" "?ls \<noteq> []" by simp_all
  have 10: "readable ?ls" by (simp add: ascii_def stream_limit_def)
  have r: "render (joined ?ls) = Out (ascii ''ECHO:a'' @ [newline] @ ascii ''ECHO:b'')"
    by (simp add: render_def joined_def rstrip_newline_def ascii_def newline_def decode_one_def)
  from timeout_after_lines_returns_partial_buffer[OF 1 2 3 4 5 6 7 8 9 10]
  show ?thesis by (auto simp: r)
qed

text \<open>
  C5, as stated: a child whose exit status was recorded before the call makes
  \<^verbatim>\<open>send\<close> fail with HTTP 500 and that status. It does not: \<^verbatim>\<open>start_kotlin\<close>
  runs first and replaces such a child, so the request is served by the replacement.
\<close>

theorem exited_worker_counterexample:
  "returncode (exited 1 (- 9)) = Some (- 9)
   \<and> map_option fst (send (ascii ''x'') (running (exited 1 (- 9)))) =
       Some (Inr (Out (ascii ''ECHO:x'')))"
proof -
  let ?q = "ascii ''x''"
  let ?ls = "[ascii ''ECHO:x'']"
  have 5: "utf8_encode (?q @ [newline]) = Inr (?q @ [newline])"
    by (rule utf8_encode_ascii) (simp add: ascii_def newline_def)
  have 6: "stdout_events (echo_worker 2) @ respond (echo_worker 2) (?q @ [newline]) =
      map Line ?ls @ []"
    by (simp add: echo_worker_def echo_def protocol_lines_def ascii_def newline_def)
  have 8: "render (joined ?ls) = Out (ascii ''ECHO:x'')"
    by (simp add: render_def joined_def rstrip_newline_def ascii_def newline_def decode_one_def)
  have "\<exists>w'. send ?q (running (exited 1 (- 9))) = Some (Inr (render (joined ?ls)), w')
      \<and> \<not> io_lock w'"
    by (rule send_lines_then_quiet[OF start_kotlin_exited _ _ _ _ _ 5 6])
      (simp_all add: running_facts echo_worker_def ascii_def stream_limit_def)
  then show ?thesis by (auto simp: 8 exited_def)
qed

text \<open>
  C5, amended. When the referenced child has a recorded exit status, \<^verbatim>\<open>send\<close>
  launches a replacement. A failed launch ends the call with the launch error. If the
  replacement itself already has a recorded exit status, the call fails with HTTP 500
  and the detail naming that status, and nothing is written; otherwise the exchange
  runs, under the token, with the replacement.
\<close>

theorem exited_worker_is_replaced:
  assumes "proc w = Some p" "returncode p = Some rc"
  shows "send q w =
     (case spawner w (launches w) of
        Inl e \<Rightarrow> Some (Inl e, w\<lparr>launches := Suc (launches w)\<rparr>)
      | Inr p' \<Rightarrow>
          (case returncode p' of
             Some rc' \<Rightarrow>
               Some (Inl (HTTPException 500 (detail_exited rc')),
                 emit [Spawned (pid p'), DrainStarted (pid p')]
                   (w\<lparr>proc := Some p', launches := Suc (launches w),
                      stderr_task := Some (pid p')\<rparr>))
           | None \<Rightarrow>
               with_io_lock (send_guarded q)
                 (emit [Spawned (pid p'), DrainStarted (pid p')]
                   (w\<lparr>proc := Some p', launches := Suc (launches w),
                      stderr_task := Some (pid p')\<rparr>))))"
  using assms by (simp add: send_def start_kotlin_def live_def split: sum.splits option.splits)

theorem exited_worker_is_replaced_witness:
  "proc (running (exited 1 (- 9))) = Some (exited 1 (- 9))
   \<and> returncode (exited 1 (- 9)) = Some (- 9)
   \<and> send (ascii ''x'') (running (exited 1 (- 9))) =
       with_io_lock (send_guarded (ascii ''x''))
         (emit [Spawned 2, DrainStarted 2]
           ((running (exited 1 (- 9)))\<lparr>proc := Some (echo_worker 2), launches := 2,
              stderr_task := Some 2\<rparr>))
   \<and> map_option fst
        (send (ascii ''x'') ((running (exited 1 (- 9)))\<lparr>spawner := (\<lambda>n. Inr (exited 2 1))\<rparr>)) =
       Some (Inl (HTTPException 500 (ascii ''Kotlin process exited with code 1'')))"
proof -
  have a: "proc (running (exited 1 (- 9))) = Some (exited 1 (- 9))"
    by (simp add: running_facts)
  have b: "returncode (exited 1 (- 9)) = Some (- 9)"
    by (simp add: exited_def)
  have a': "proc ((running (exited 1 (- 9)))\<lparr>spawner := (\<lambda>n. Inr (exited 2 1))\<rparr>) =
      Some (exited 1 (- 9))"
    by (simp add: running_facts)
  have c: "detail_exited 1 = ascii ''Kotlin process exited with code 1''"
    by (simp add: detail_exited_def show_int_def ascii_def)
  show ?thesis
    using a b exited_worker_is_replaced[OF a b, of "ascii ''x''"]
      exited_worker_is_replaced[OF a' b, of "ascii ''x''"]
    by (simp add: running_def fresh_def echo_worker_def exited_def c numeral_2_eq_2)
qed

text \<open>
  C6, as stated: once the first line is read the loop stops only by a read timeout. It
  also stops when a further line is longer than the limit of the stream reader: the
  read raises \<^verbatim>\<open>ValueError\<close>, which neither handler catches. Here the first line
  is read and bound, the second has 65537 bytes, and the reading ends with
  \<^verbatim>\<open>ValueError\<close>, as does the whole call.
\<close>

theorem framing_loop_overlong_counterexample:
  "map_option fst (read_reply
      (running ((echo_worker 1)\<lparr>stdout_events :=
         [Line (ascii ''ok''), Line (replicate 65537 120)]\<rparr>))) = Some (Inl ValueError)
   \<and> map_option (fst \<circ> snd) (read_reply
      (running ((echo_worker 1)\<lparr>stdout_events :=
         [Line (ascii ''ok''), Line (replicate 65537 120)]\<rparr>))) =
       Some (Some (ascii ''ok'' @ [newline]))
   \<and> map_option fst (send (ascii ''x'') (running (rambling 1))) = Some (Inl ValueError)"
proof -
  let ?p = "(echo_worker 1)\<lparr>stdout_events := [Line (ascii ''ok''), Line (replicate 65537 120)]\<rparr>"
  have "\<exists>w'. read_reply (running ?p) = Some (Inl ValueError, Some (joined [ascii ''ok'']), w')"
    by (rule read_reply_overlong[where p = ?p and l = "replicate 65537 120" and rest = "[]"])
      (simp_all add: running_facts echo_worker_def ascii_def stream_limit_def)
  then have a: "map_option fst (read_reply (running ?p)) = Some (Inl ValueError)"
    and b: "map_option (fst \<circ> snd) (read_reply (running ?p)) = Some (Some (ascii ''ok'' @ [newline]))"
    by (auto simp: joined_def)
  have 1: "start_kotlin (running (rambling 1)) =
      (Inr (), emit [Printed (ascii ''NO'')] (running (rambling 1)))"
    by (rule start_kotlin_running) (simp add: rambling_def echo_worker_def)
  have 5: "utf8_encode (ascii ''x'' @ [newline]) = Inr (ascii ''x'' @ [newline])"
    by (rule utf8_encode_ascii) (simp add: ascii_def newline_def)
  have "\<exists>w'. send (ascii ''x'') (running (rambling 1)) = Some (Inl ValueError, w') \<and> \<not> io_lock w'"
    by (rule send_overlong[OF 1 _ _ _ _ _ 5, where p = "rambling 1" and ls = "[ascii ''ok'']"
          and l = "replicate 65537 120" and rest = "[]"])
      (simp_all add: running_facts rambling_def echo_worker_def ascii_def stream_limit_def)
  then have c: "map_option fst (send (ascii ''x'') (running (rambling 1))) = Some (Inl ValueError)"
    by auto
  from a b c show ?thesis by simp
qed

text \<open>
  C6, amended. Once the first line is read the loop keeps reading and has no normal
  exit. While lines within the limit arrive it reads every one of them and appends it
  to the buffer, one read and one print per line, and it stops at the first silence with
  \<^verbatim>\<open>TimeoutError\<close>, or at the first line over the limit with
  \<^verbatim>\<open>ValueError\<close>, holding the lines read until then. So the two statements
  after the loop (the check for \<^verbatim>\<open>b""\<close> with its HTTP error, and the
  \<^verbatim>\<open>return\<close>) are never reached; with a process referenced the reading part
  ends only by an exception of a read (the timeout, the over-long line or a read error of
  the pipe); and every response the guarded exchange returns was built by the timeout
  handler from the lines read so far.
\<close>

theorem framing_loop_ends_only_by_exception:
  "while_loop (\<lambda>s. True) loop_body s \<noteq> Some (Inr u, s')
   \<and> (proc w1 = Some p1 \<and> \<not> stdout_eof p1 \<and> stdout_events p1 = map Line ls1 @ rest1
        \<and> quiet rest1 \<and> readable ls1 \<longrightarrow>
        (\<exists>w'. while_loop (\<lambda>s. True) loop_body (line1, w1) =
             Some (Inl TimeoutError, (line1 @ joined ls1, w'))
           \<and> proc w' = Some (p1\<lparr>stdout_events := drop 1 rest1\<rparr>)
           \<and> length (effects w') = length (effects w1) + Suc (length ls1)))
   \<and> (proc w2 = Some p2 \<and> \<not> stdout_eof p2 \<and> stdout_events p2 = map Line ls2 @ Line l2 # rest2
        \<and> readable ls2 \<and> stream_limit < length l2 \<longrightarrow>
        (\<exists>w'. while_loop (\<lambda>s. True) loop_body (line2, w2) =
             Some (Inl ValueError, (line2 @ joined ls2, w'))
           \<and> proc w' = Some (p2\<lparr>stdout_events := rest2\<rparr>)))
   \<and> read_reply w \<noteq> Some (Inr r, b, w')
   \<and> read_reply w \<noteq> Some (Inl (HTTPException c d), b, w')
   \<and> (proc w \<noteq> None \<and> map_option fst (read_reply w) = Some (Inl e) \<longrightarrow>
        e = TimeoutError \<or> e = ValueError \<or> e = OSError)
   \<and> (map_option fst (send_guarded q w) = Some (Inr r) \<longrightarrow>
        (\<exists>line w''. send_try q w = Some (Inl TimeoutError, Some line, w'') \<and> r = render line))"
proof (intro conjI impI)
  show "while_loop (\<lambda>s. True) loop_body s \<noteq> Some (Inr u, s')"
    by (rule while_true_no_exit)
  show "read_reply w \<noteq> Some (Inr r, b, w')"
    by (rule read_reply_no_return)
  show "read_reply w \<noteq> Some (Inl (HTTPException c d), b, w')"
    using read_reply_raises[of w "HTTPException c d" b w'] by auto
next
  assume "proc w1 = Some p1 \<and> \<not> stdout_eof p1 \<and> stdout_events p1 = map Line ls1 @ rest1
      \<and> quiet rest1 \<and> readable ls1"
  then show "\<exists>w'. while_loop (\<lambda>s. True) loop_body (line1, w1) =
             Some (Inl TimeoutError, (line1 @ joined ls1, w'))
           \<and> proc w' = Some (p1\<lparr>stdout_events := drop 1 rest1\<rparr>)
           \<and> length (effects w') = length (effects w1) + Suc (length ls1)"
    by (elim conjE) (rule framing_loop_quiet)
next
  assume "proc w2 = Some p2 \<and> \<not> stdout_eof p2 \<and> stdout_events p2 = map Line ls2 @ Line l2 # rest2
      \<and> readable ls2 \<and> stream_limit < length l2"
  then show "\<exists>w'. while_loop (\<lambda>s. True) loop_body (line2, w2) =
             Some (Inl ValueError, (line2 @ joined ls2, w'))
           \<and> proc w' = Some (p2\<lparr>stdout_events := rest2\<rparr>)"
    by (elim conjE) (rule framing_loop_overlong)
next
  assume "proc w \<noteq> None \<and> map_option fst (read_reply w) = Some (Inl e)"
  then obtain l' w1 where "read_reply w = Some (Inl e, l', w1)" and "proc w \<noteq> None"
    by auto
  then show "e = TimeoutError \<or> e = ValueError \<or> e = OSError" by (rule read_reply_raises_live)
next
  assume "map_option fst (send_guarded q w) = Some (Inr r)"
  then obtain w1 where "send_guarded q w = Some (Inr r, w1)" by auto
  from send_guarded_response[OF this]
  show "\<exists>line w''. send_try q w = Some (Inl TimeoutError, Some line, w'') \<and> r = render line"
    by blast
qed

theorem framing_loop_ends_only_by_exception_witness:
  "(\<exists>w'. while_loop (\<lambda>s. True) loop_body
        (ascii ''x'' @ [newline],
         running ((echo_worker 1)\<lparr>stdout_events :=
           [Line (ascii ''a''), Line (ascii ''b''), Silent, Line (ascii ''c'')]\<rparr>)) =
      Some (Inl TimeoutError,
        (ascii ''x'' @ [newline] @ ascii ''a'' @ [newline] @ ascii ''b'' @ [newline], w'))
      \<and> proc w' = Some ((echo_worker 1)\<lparr>stdout_events := [Line (ascii ''c'')]\<rparr>)
      \<and> length (effects w') = 3)
   \<and> (\<exists>w'. while_loop (\<lambda>s. True) loop_body
        (ascii ''x'' @ [newline],
         running ((echo_worker 1)\<lparr>stdout_events :=
           [Line (ascii ''a''), Line (replicate 65537 120), Line (ascii ''c'')]\<rparr>)) =
      Some (Inl ValueError, (ascii ''x'' @ [newline] @ ascii ''a'' @ [newline], w'))
      \<and> proc w' = Some ((echo_worker 1)\<lparr>stdout_events := [Line (ascii ''c'')]\<rparr>))
   \<and> proc (running (echo_worker 1)) \<noteq> None
   \<and> map_option fst (read_reply (running (echo_worker 1))) = Some (Inl TimeoutError)
   \<and> map_option fst (send_guarded (ascii ''a'' @ [newline] @ ascii ''b'') (running (echo_worker 1))) =
       Some (Inr (Out (ascii ''ECHO:a'' @ [newline] @ ascii ''ECHO:b'')))
   \<and> (\<exists>line w''. send_try (ascii ''a'' @ [newline] @ ascii ''b'') (running (echo_worker 1)) =
         Some (Inl TimeoutError, Some line, w'')
       \<and> Out (ascii ''ECHO:a'' @ [newline] @ ascii ''ECHO:b'') = render line)"
proof -
  let ?q = "ascii ''a'' @ [newline] @ ascii ''b''"
  let ?w = "running (echo_worker 1)"
  let ?ls = "[ascii ''ECHO:a'', ascii ''ECHO:b'']"
  let ?out = "Out (ascii ''ECHO:a'' @ [newline] @ ascii ''ECHO:b'')"
  let ?p1 = "(echo_worker 1)\<lparr>stdout_events :=
      [Line (ascii ''a''), Line (ascii ''b''), Silent, Line (ascii ''c'')]\<rparr>"
  let ?p2 = "(echo_worker 1)\<lparr>stdout_events :=
      [Line (ascii ''a''), Line (replicate 65537 120), Line (ascii ''c'')]\<rparr>"
  have h1: "proc (running ?p1) = Some ?p1 \<and> \<not> stdout_eof ?p1
      \<and> stdout_events ?p1 = map Line [ascii ''a'', ascii ''b''] @ [Silent, Line (ascii ''c'')]
      \<and> quiet [Silent, Line (ascii ''c'')] \<and> readable [ascii ''a'', ascii ''b'']"
    by (simp add: running_facts echo_worker_def ascii_def stream_limit_def)
  have h2: "proc (running ?p2) = Some ?p2 \<and> \<not> stdout_eof ?p2
      \<and> stdout_events ?p2 = map Line [ascii ''a''] @ Line (replicate 65537 120) # [Line (ascii ''c'')]
      \<and> readable [ascii ''a''] \<and> stream_limit < length (replicate 65537 (120::nat))"
    by (simp add: running_facts echo_worker_def ascii_def stream_limit_def)
  have a: "proc ?w \<noteq> None" by (simp add: running_facts)
  have "\<exists>w'. read_reply ?w = Some (Inl TimeoutError, None, w')"
    by (rule read_reply_quiet[where p = "echo_worker 1"])
      (simp_all add: running_facts echo_worker_def)
  then have b: "map_option fst (read_reply ?w) = Some (Inl TimeoutError)" by auto
  have 5: "utf8_encode (?q @ [newline]) = Inr (?q @ [newline])"
    by (rule utf8_encode_ascii) (simp add: ascii_def newline_def)
  have 6: "stdout_events (echo_worker 1) @ respond (echo_worker 1) (?q @ [newline]) =
      map Line ?ls @ []"
    by (simp add: echo_worker_def echo_def protocol_lines_def ascii_def newline_def)
  have 8: "render (joined ?ls) = ?out"
    by (simp add: render_def joined_def rstrip_newline_def ascii_def newline_def decode_one_def)
  have "\<exists>w'. send_guarded ?q ?w = Some (Inr (render (joined ?ls)), w')"
    by (rule send_guarded_lines[OF _ _ _ 5 6])
      (simp_all add: running_facts echo_worker_def ascii_def stream_limit_def)
  then have c: "map_option fst (send_guarded ?q ?w) = Some (Inr ?out)"
    by (auto simp: 8)
  note t = framing_loop_ends_only_by_exception[where ?w1.0 = "running ?p1" and ?p1.0 = ?p1
      and ?ls1.0 = "[ascii ''a'', ascii ''b'']" and ?rest1.0 = "[Silent, Line (ascii ''c'')]"
      and ?line1.0 = "ascii ''x'' @ [newline]"
      and ?w2.0 = "running ?p2" and ?p2.0 = ?p2 and ?ls2.0 = "[ascii ''a'']"
      and ?l2.0 = "replicate 65537 120" and ?rest2.0 = "[Line (ascii ''c'')]"
      and ?line2.0 = "ascii ''x'' @ [newline]"
      and w = ?w and e = TimeoutError and q = ?q and r = ?out]
  have e0: "effects (running p) = []" for p by (simp add: running_def fresh_def)
  from t[THEN conjunct2, THEN conjunct1] h1
  have "\<exists>w'. while_loop (\<lambda>s. True) loop_body (ascii ''x'' @ [newline], running ?p1) =
        Some (Inl TimeoutError,
          ((ascii ''x'' @ [newline]) @ joined [ascii ''a'', ascii ''b''], w'))
      \<and> proc w' = Some (?p1\<lparr>stdout_events := drop 1 [Silent, Line (ascii ''c'')]\<rparr>)
      \<and> length (effects w') =
          length (effects (running ?p1)) + Suc (length [ascii ''a'', ascii ''b''])"
    by blast
  then have c2: "\<exists>w'. while_loop (\<lambda>s. True) loop_body (ascii ''x'' @ [newline], running ?p1) =
      Some (Inl TimeoutError,
        (ascii ''x'' @ [newline] @ ascii ''a'' @ [newline] @ ascii ''b'' @ [newline], w'))
      \<and> proc w' = Some ((echo_worker 1)\<lparr>stdout_events := [Line (ascii ''c'')]\<rparr>)
      \<and> length (effects w') = 3"
    by (simp add: joined_def e0 numeral_3_eq_3)
  from t[THEN conjunct2, THEN conjunct2, THEN conjunct1] h2
  have "\<exists>w'. while_loop (\<lambda>s. True) loop_body (ascii ''x'' @ [newline], running ?p2) =
        Some (Inl ValueError, ((ascii ''x'' @ [newline]) @ joined [ascii ''a''], w'))
      \<and> proc w' = Some (?p2\<lparr>stdout_events := [Line (ascii ''c'')]\<rparr>)"
    by blast
  then have c3: "\<exists>w'. while_loop (\<lambda>s. True) loop_body (ascii ''x'' @ [newline], running ?p2) =
      Some (Inl ValueError, (ascii ''x'' @ [newline] @ ascii ''a'' @ [newline], w'))
      \<and> proc w' = Some ((echo_worker 1)\<lparr>stdout_events := [Line (ascii ''c'')]\<rparr>)"
    by (simp add: joined_def)
  from t c have c7: "\<exists>line w''. send_try ?q ?w = Some (Inl TimeoutError, Some line, w'')
      \<and> ?out = render line"
    by blast
  from c2 c3 a b c c7 show ?thesis by blast
qed

text \<open>
  C7. With a live child that answers every input line with \<^verbatim>\<open>"ECHO:"\<close>, the line
  and a newline, that has nothing pending on its output, and with the token free,
  \<^verbatim>\<open>send("hello")\<close> returns the response \<^verbatim>\<open>"ECHO:hello"\<close>.
\<close>

theorem echo_hello:
  assumes "proc w = Some p" "returncode p = None" "stdin_error p = None" "\<not> stdout_eof p"
    "stdout_events p = []" "respond p = echo" "\<not> io_lock w"
  shows "\<exists>w'. send (ascii ''hello'') w = Some (Inr (Out (ascii ''ECHO:hello'')), w') \<and> \<not> io_lock w'"
proof -
  let ?q = "ascii ''hello''"
  let ?ls = "[ascii ''ECHO:hello'']"
  have 1: "start_kotlin w = (Inr (), emit [Printed (ascii ''NO'')] w)"
    using assms by (intro start_kotlin_live) (simp add: live_def)
  have 5: "utf8_encode (?q @ [newline]) = Inr (?q @ [newline])"
    by (rule utf8_encode_ascii) (simp add: ascii_def newline_def)
  have 6: "stdout_events p @ respond p (?q @ [newline]) = map Line ?ls @ []"
    using assms by (simp add: echo_def protocol_lines_def ascii_def newline_def)
  have 8: "render (joined ?ls) = Out (ascii ''ECHO:hello'')"
    by (simp add: render_def joined_def rstrip_newline_def ascii_def newline_def decode_one_def)
  have "\<exists>w'. send ?q w = Some (Inr (render (joined ?ls)), w') \<and> \<not> io_lock w'"
    using assms
    by (intro send_lines_then_quiet[OF 1 _ _ _ _ _ 5 6])
      (simp_all add: ascii_def stream_limit_def)
  then show ?thesis by (simp add: 8)
qed

theorem echo_hello_witness:
  "map_option fst (send (ascii ''hello'') (running (echo_worker 1))) =
     Some (Inr (Out (ascii ''ECHO:hello'')))"
proof -
  have "\<exists>w'. send (ascii ''hello'') (running (echo_worker 1)) =
      Some (Inr (Out (ascii ''ECHO:hello'')), w') \<and> \<not> io_lock w'"
    by (rule echo_hello[where p = "echo_worker 1"])
      (simp_all add: running_facts echo_worker_def)
  then show ?thesis by auto
qed

text \<open>
  C10. What \<^verbatim>\<open>send\<close> hands to the child's input is the UTF-8 encoding of the
  query followed by one newline, unchanged otherwise. A call that reaches the exchange
  with a query that has an encoding, and returns, has logged exactly this one chunk as
  written; the child's input has grown by all of it when the pipe is sound, and by the
  part the child still took when it is not. The chunk holds one protocol line more than
  the query has newlines. Whether or not the call returns, lines 94 to 96 are the write
  of this chunk followed by the flush; a query without an encoding raises before
  anything is written.
\<close>

theorem request_is_encoded_query_and_newline:
  "(send q w = Some (r, w') \<and> start_kotlin w = (Inr u, w1) \<and> proc w1 = Some p
      \<and> returncode p = None \<and> utf8_encode q = Inr enc \<longrightarrow>
        writes (effects w') = writes (effects w) @ [enc @ [newline]]
        \<and> (\<exists>p'. proc w' = Some p'
             \<and> stdin_data p' =
                 (case stdin_error p of
                    None \<Rightarrow> stdin_data p @ enc @ [newline]
                  | Some (Fault k waiting f) \<Rightarrow>
                      stdin_data p @ take k (waiting @ enc @ [newline]))))
   \<and> (utf8_encode q = Inr enc \<longrightarrow>
        length (protocol_lines (enc @ [newline])) = Suc (count_list q newline))
   \<and> (utf8_encode q = Inr enc \<and> proc w = Some p0 \<longrightarrow>
        send_request q w =
          stdin_drain (emit [Wrote (pid p0) (enc @ [newline])]
            (w\<lparr>proc := Some (stdin_accept (enc @ [newline]) p0)\<rparr>)))
   \<and> (utf8_encode q = Inl e \<longrightarrow> send_request q w = Some (Inl e, w))"
proof (intro conjI impI)
  assume a: "send q w = Some (r, w') \<and> start_kotlin w = (Inr u, w1) \<and> proc w1 = Some p
      \<and> returncode p = None \<and> utf8_encode q = Inr enc"
  then have k: "writes (effects w') = writes (effects w) @ [enc @ [newline]]
      \<and> map_option stdin_data (proc w') = Some (stdin_data (stdin_accept (enc @ [newline]) p))"
    by (elim conjE) (rule send_keeps)
  then show "writes (effects w') = writes (effects w) @ [enc @ [newline]]" by simp
  from k show "\<exists>p'. proc w' = Some p'
      \<and> stdin_data p' =
          (case stdin_error p of
             None \<Rightarrow> stdin_data p @ enc @ [newline]
           | Some (Fault k waiting f) \<Rightarrow> stdin_data p @ take k (waiting @ enc @ [newline]))"
    by (auto simp: stdin_accept_data)
next
  assume "utf8_encode q = Inr enc"
  then show "length (protocol_lines (enc @ [newline])) = Suc (count_list q newline)"
    by (rule protocol_lines_count)
next
  assume "utf8_encode q = Inr enc \<and> proc w = Some p0"
  then show "send_request q w =
      stdin_drain (emit [Wrote (pid p0) (enc @ [newline])]
        (w\<lparr>proc := Some (stdin_accept (enc @ [newline]) p0)\<rparr>))"
    by (elim conjE) (rule send_request_unfold)
next
  assume "utf8_encode q = Inl e"
  then show "send_request q w = Some (Inl e, w)" by (rule send_request_unencodable)
qed

theorem request_is_encoded_query_and_newline_witness:
  "writes (effects (snd (the (send (ascii ''a'' @ [newline] @ ascii ''b'')
       (running (echo_worker 1)))))) = [ascii ''a'' @ [newline] @ ascii ''b'' @ [newline]]
   \<and> (\<exists>p'. proc (snd (the (send (ascii ''a'' @ [newline] @ ascii ''b'')
           (running (echo_worker 1))))) = Some p'
         \<and> stdin_data p' = ascii ''a'' @ [newline] @ ascii ''b'' @ [newline])
   \<and> length (protocol_lines (ascii ''a'' @ [newline] @ ascii ''b'' @ [newline])) = 2
   \<and> map_option fst (send (ascii ''hello'') (running (choking 1))) =
       Some (Inl (HTTPException 500 detail_stdin_closed))
   \<and> writes (effects (snd (the (send (ascii ''hello'') (running (choking 1)))))) =
       [ascii ''hello'' @ [newline]]
   \<and> (\<exists>p'. proc (snd (the (send (ascii ''hello'') (running (choking 1))))) = Some p'
         \<and> stdin_data p' = ascii ''h'')
   \<and> send_request [0xD800] (running (echo_worker 1)) =
       Some (Inl UnicodeEncodeError, running (echo_worker 1))"
proof -
  let ?q = "ascii ''a'' @ [newline] @ ascii ''b''"
  let ?w = "running (echo_worker 1)"
  let ?h = "ascii ''hello''"
  let ?c = "running (choking 1)"
  let ?ls = "[ascii ''ECHO:a'', ascii ''ECHO:b'']"
  have e0: "effects (running p) = []" for p by (simp add: running_def fresh_def)
  have encq: "utf8_encode ?q = Inr ?q"
    by (rule utf8_encode_ascii) (simp add: ascii_def newline_def)
  have ench: "utf8_encode ?h = Inr ?h"
    by (rule utf8_encode_ascii) (simp add: ascii_def)
  have 5: "utf8_encode (?q @ [newline]) = Inr (?q @ [newline])"
    by (rule utf8_encode_ascii) (simp add: ascii_def newline_def)
  have bad: "utf8_encode [0xD800] = Inl UnicodeEncodeError"
    by (simp add: utf8_encode_def encodable_def)
  have sw: "start_kotlin ?w = (Inr (), emit [Printed (ascii ''NO'')] ?w)"
    by (rule start_kotlin_running) (simp add: echo_worker_def)
  have sc: "start_kotlin ?c = (Inr (), emit [Printed (ascii ''NO'')] ?c)"
    by (rule start_kotlin_running) (simp add: choking_def echo_worker_def)
  have 6: "stdout_events (echo_worker 1) @ respond (echo_worker 1) (?q @ [newline]) =
      map Line ?ls @ []"
    by (simp add: echo_worker_def echo_def protocol_lines_def ascii_def newline_def)
  have "\<exists>w'. send ?q ?w = Some (Inr (render (joined ?ls)), w') \<and> \<not> io_lock w'"
    by (rule send_lines_then_quiet[OF sw _ _ _ _ _ 5 6])
      (simp_all add: running_facts echo_worker_def ascii_def stream_limit_def)
  then obtain w' where "send ?q ?w = Some (Inr (render (joined ?ls)), w')" by blast
  then have sdq: "send ?q ?w = Some (fst (the (send ?q ?w)), snd (the (send ?q ?w)))"
    by simp
  have pw: "proc (emit [Printed (ascii ''NO'')] ?w) = Some (echo_worker 1)"
    "returncode (echo_worker 1) = None" "stdin_error (echo_worker 1) = None"
    "stdin_data (echo_worker 1) = []"
    by (simp_all add: running_facts echo_worker_def)
  have pc: "proc (emit [Printed (ascii ''NO'')] ?c) = Some (choking 1)"
    "returncode (choking 1) = None"
    "stdin_error (choking 1) = Some (Fault 1 [] (Raises BrokenPipeError))"
    "stdin_data (choking 1) = []"
    by (simp_all add: running_facts choking_def echo_worker_def)
  have st: "send ?h ?c = with_io_lock (send_guarded ?h) (emit [Printed (ascii ''NO'')] ?c)"
    by (rule send_started[OF sc pc(1,2)])
  have "with_io_lock (send_guarded ?h) (emit [Printed (ascii ''NO'')] ?c) \<noteq> None
      \<and> map_option fst (with_io_lock (send_guarded ?h) (emit [Printed (ascii ''NO'')] ?c)) =
          Some (Inl (HTTPException 500 detail_stdin_closed))"
    by (simp add: with_io_lock_def running_def fresh_def emit_def choking_def
        echo_worker_def send_guarded_def send_try_def send_request_def stdin_write_def
        stdin_drain_def stdin_accept_def deliver_def utf8_encode_def encodable_def
        encode_cp_def ascii_def newline_def echo_def protocol_lines_def)
  then have hc: "send ?h ?c \<noteq> None
      \<and> map_option fst (send ?h ?c) = Some (Inl (HTTPException 500 detail_stdin_closed))"
    unfolding st .
  then have sdh: "send ?h ?c = Some (fst (the (send ?h ?c)), snd (the (send ?h ?c)))"
    by auto
  note tq = request_is_encoded_query_and_newline[where q = ?q and w = ?w
      and r = "fst (the (send ?q ?w))" and w' = "snd (the (send ?q ?w))" and u = "()"
      and ?w1.0 = "emit [Printed (ascii ''NO'')] ?w" and p = "echo_worker 1" and enc = ?q]
  note th = request_is_encoded_query_and_newline[where q = ?h and w = ?c
      and r = "fst (the (send ?h ?c))" and w' = "snd (the (send ?h ?c))" and u = "()"
      and ?w1.0 = "emit [Printed (ascii ''NO'')] ?c" and p = "choking 1" and enc = ?h]
  note tb = request_is_encoded_query_and_newline[where q = "[0xD800]" and w = ?w
      and e = UnicodeEncodeError]
  from tq[THEN conjunct1] sdq sw pw(1,2) encq
  have q1: "writes (effects (snd (the (send ?q ?w)))) = writes (effects ?w) @ [?q @ [newline]]
      \<and> (\<exists>p'. proc (snd (the (send ?q ?w))) = Some p'
           \<and> stdin_data p' =
               (case stdin_error (echo_worker 1) of
                  None \<Rightarrow> stdin_data (echo_worker 1) @ ?q @ [newline]
                | Some (Fault k waiting f) \<Rightarrow>
                    stdin_data (echo_worker 1) @ take k (waiting @ ?q @ [newline])))"
    by blast
  from th[THEN conjunct1] sdh sc pc(1,2) ench
  have h1: "writes (effects (snd (the (send ?h ?c)))) = writes (effects ?c) @ [?h @ [newline]]
      \<and> (\<exists>p'. proc (snd (the (send ?h ?c))) = Some p'
           \<and> stdin_data p' =
               (case stdin_error (choking 1) of
                  None \<Rightarrow> stdin_data (choking 1) @ ?h @ [newline]
                | Some (Fault k waiting f) \<Rightarrow>
                    stdin_data (choking 1) @ take k (waiting @ ?h @ [newline])))"
    by blast
  from q1 have a: "writes (effects (snd (the (send ?q ?w)))) = [?q @ [newline]]"
    and b: "\<exists>p'. proc (snd (the (send ?q ?w))) = Some p' \<and> stdin_data p' = ?q @ [newline]"
    by (simp_all add: e0 echo_worker_def)
  from h1 have d: "writes (effects (snd (the (send ?h ?c)))) = [?h @ [newline]]"
    and f: "\<exists>p'. proc (snd (the (send ?h ?c))) = Some p' \<and> stdin_data p' = ascii ''h''"
    by (simp_all add: e0 choking_def echo_worker_def ascii_def)
  from tq[THEN conjunct2, THEN conjunct1] encq
  have "length (protocol_lines (?q @ [newline])) = Suc (count_list ?q newline)" by blast
  then have c: "length (protocol_lines (?q @ [newline])) = 2"
    by (simp add: ascii_def newline_def)
  from tb[THEN conjunct2, THEN conjunct2, THEN conjunct2] bad
  have g: "send_request [0xD800] ?w = Some (Inl UnicodeEncodeError, ?w)" by blast
  from a b c hc d f g show ?thesis by simp
qed

end
